theory Spec2Isabelle
  imports Complex_Main "HOL-Library.Log_Nat" "HOL-Library.AList"
begin

chapter \<open>Naughty-or-Nice: the scoring pipeline of \<^verbatim>\<open>naughty-nice-app/server.js\<close>\<close>

text \<open>
  The development embeds the decision logic of \<^verbatim>\<open>server.js\<close>: the four source
  analyzers, the weighted aggregator \<^verbatim>\<open>calculateWeightedScore\<close>, the mirror loop
  \<^verbatim>\<open>fetchNitterTweets\<close> and the two request handlers \<^verbatim>\<open>/api/analyze\<close> and
  \<^verbatim>\<open>/api/analyze-all\<close>. The first part holds the definitions, the second part the
  properties proved about them.
\<close>

section \<open>JavaScript values\<close>

text \<open>
  The handlers read \<^verbatim>\<open>username\<close> and \<^verbatim>\<open>demo\<close> from a JSON body and the aggregator
  reads a \<^verbatim>\<open>found\<close> flag that may be missing; such untyped slots are values of
  \<open>jsval\<close>, with \<open>JUndefined\<close> for a key that is absent. \<open>truthy\<close> is JavaScript's
  \<^verbatim>\<open>ToBoolean\<close> on these values.
\<close>

datatype jsval = JUndefined | JNull | JBool bool | JNum int | JStr string

fun truthy :: "jsval \<Rightarrow> bool" where
  "truthy JUndefined = False"
| "truthy JNull = False"
| "truthy (JBool b) = b"
| "truthy (JNum n) = (n \<noteq> 0)"
| "truthy (JStr s) = (s \<noteq> [])"

text \<open>
  A property read \<^verbatim>\<open>obj[key]\<close> on an object literal finds the object's own entry, or
  else a member that every object inherits from \<^verbatim>\<open>Object.prototype\<close> (a function, or
  for \<^verbatim>\<open>__proto__\<close> the prototype object itself: truthy, and not a number), or
  else \<^verbatim>\<open>undefined\<close>. \<open>OBJECT_PROTOTYPE_NAMES\<close> lists the inherited names of the
  runtime (Node.js).
\<close>

definition OBJECT_PROTOTYPE_NAMES :: "string list" where
  "OBJECT_PROTOTYPE_NAMES =
    [''constructor'', ''__defineGetter__'', ''__defineSetter__'', ''hasOwnProperty'',
     ''__lookupGetter__'', ''__lookupSetter__'', ''isPrototypeOf'',
     ''propertyIsEnumerable'', ''toString'', ''valueOf'', ''__proto__'',
     ''toLocaleString'']"

datatype 'a property = Own 'a | Inherited | Undefined

definition get_property :: "(string \<times> 'a) list \<Rightarrow> string \<Rightarrow> 'a property" where
  "get_property obj k =
     (case map_of obj k of
        Some v \<Rightarrow> Own v
      | None \<Rightarrow> if k \<in> set OBJECT_PROTOTYPE_NAMES then Inherited else Undefined)"


section \<open>JavaScript numbers\<close>

text \<open>
  A JavaScript number is an IEEE-754 binary64 value. A finite double is a rational, and
  every arithmetic operation returns the exact result rounded to the nearest double, ties
  to the even significand. \<open>fl\<close> is that rounding: \<open>binade x\<close> is the exponent \<open>e\<close>
  with \<open>2^e \<le> |x| < 2^(e+1)\<close> (read off the bit length of the integer part, or of the
  reciprocal below 1), and \<open>x\<close> is rounded to a multiple of \<open>2^(e-52)\<close>, which leaves
  53 significant bits. The exponent range is not bounded here: overflow to
  \<^verbatim>\<open>Infinity\<close> and the subnormal numbers below \<open>2^-1022\<close> are outside the model, as is
  \<^verbatim>\<open>NaN\<close>. The numbers of the scoring pipeline (weights, products of a score and a
  weight, their sums, ratios of counts) are zero or lie far inside the normal range,
  where \<open>fl\<close> is the rounding of the machine. A score is an integer, as the analyzers
  produce it.
\<close>

definition binade :: "rat \<Rightarrow> int" where
  "binade x =
     (if 1 \<le> \<bar>x\<bar> then bitlen \<lfloor>\<bar>x\<bar>\<rfloor> - 1
      else - bitlen (\<lceil>1 / \<bar>x\<bar>\<rceil> - 1))"

definition round_half_even :: "rat \<Rightarrow> int" where
  "round_half_even q =
     (let f = \<lfloor>q\<rfloor>; r = q - of_int f
      in if r < 1 / 2 then f
         else if 1 / 2 < r then f + 1
         else if even f then f else f + 1)"

definition fl :: "rat \<Rightarrow> rat" where
  "fl x = (if x = 0 then 0
           else let e = binade x - 52
                in of_int (round_half_even (x / 2 powi e)) * 2 powi e)"

definition fadd :: "rat \<Rightarrow> rat \<Rightarrow> rat" where
  "fadd x y = fl (x + y)"

definition fsub :: "rat \<Rightarrow> rat \<Rightarrow> rat" where
  "fsub x y = fl (x - y)"

definition fmul :: "rat \<Rightarrow> rat \<Rightarrow> rat" where
  "fmul x y = fl (x * y)"

text \<open>Division is only ever applied to a non-zero divisor in the code modelled here.\<close>

definition fdiv :: "rat \<Rightarrow> rat \<Rightarrow> rat" where
  "fdiv x y = fl (x / y)"

text \<open>
  \<^verbatim>\<open>Math.round\<close> returns the nearest integer, a tie going towards \<open>+\<infinity>\<close>; on a
  finite double that is exactly \<open>\<lfloor>x + 1/2\<rfloor>\<close>.
\<close>

definition js_round :: "rat \<Rightarrow> int" where
  "js_round x = \<lfloor>x + 1 / 2\<rfloor>"

text \<open>
  Notions used to state how far a rounded result is from the exact one: the spacing
  \<open>ulp x\<close> of the doubles around \<open>x\<close>, the unit roundoff \<open>2^-53\<close>, and the numbers with
  a significand of at most 53 bits, which \<open>fl\<close> leaves unchanged.
\<close>

definition ulp :: "rat \<Rightarrow> rat" where
  "ulp x = 2 powi (binade x - 52)"

definition unit_roundoff :: rat where
  "unit_roundoff = 1 / 2 ^ 53"

definition representable :: "rat \<Rightarrow> bool" where
  "representable x = (\<exists>m j. x = of_int m * 2 powi j \<and> \<bar>m\<bar> \<le> 2 ^ 53)"

section \<open>Source results\<close>

datatype verdict = NICE | NAUGHTY

text \<open>
  Fetch results and source results both carry a \<^verbatim>\<open>found\<close> flag, so \<open>found\<close> is the
  field of a common base record. A source result is the object an analyzer returns and
  the aggregator reads. A key that an object may lack is an option (\<open>JUndefined\<close> for
  \<open>found\<close>). The analyzers add their supporting counts as
  record extensions; the orchestrator's \<^verbatim>\<open>{...analysis, found: true}\<close> is the record
  update \<open>r\<lparr>found := JBool True\<rparr>\<close>, and its \<^verbatim>\<open>{ found: false }\<close> is \<open>not_found\<close>.
\<close>

record flagged =
  found :: jsval

record source_result = flagged +
  score :: "int option"
  verdict :: "verdict option"

definition not_found :: source_result where
  "not_found = \<lparr>found = JBool False, score = None, verdict = None\<rparr>"

section \<open>Text items and keyword matching\<close>

text \<open>
  The texts and keywords of the analyzers are matched as ASCII: \<open>toLowerCase\<close> maps
  \<^verbatim>\<open>A\<close>..\<^verbatim>\<open>Z\<close> to \<^verbatim>\<open>a\<close>..\<^verbatim>\<open>z\<close> and leaves every other byte alone (JavaScript
  also folds the letters outside ASCII, U+212A to \<^verbatim>\<open>k\<close> for one), and \<open>includes_str\<close>
  is \<^verbatim>\<open>String.prototype.includes\<close>, the test for a contiguous substring.
\<close>

definition lower_char :: "char \<Rightarrow> char" where
  "lower_char c =
     (let n = (of_char c :: nat)
      in if 65 \<le> n \<and> n \<le> 90 then char_of (n + 32) else c)"

definition toLowerCase :: "string \<Rightarrow> string" where
  "toLowerCase s = map lower_char s"

fun starts_with :: "string \<Rightarrow> string \<Rightarrow> bool" where
  "starts_with s [] = True"
| "starts_with [] (k # ks) = False"
| "starts_with (c # cs) (k # ks) = (c = k \<and> starts_with cs ks)"

fun includes_str :: "string \<Rightarrow> string \<Rightarrow> bool" where
  "includes_str [] kw = (kw = [])"
| "includes_str (c # cs) kw = (starts_with (c # cs) kw \<or> includes_str cs kw)"

text \<open>
  A raw item is an object with a \<^verbatim>\<open>text\<close>; forum comments add the community score of
  the comment (\<^verbatim>\<open>score\<close> in the source, \<open>comment_score\<close> here, since \<open>score\<close> is the
  field of a source result) and the subreddit.
\<close>

record item =
  "text" :: string

record comment = item +
  comment_score :: int
  subreddit :: string

definition NAUGHTY_KEYWORDS :: "string list" where
  "NAUGHTY_KEYWORDS =
    [''hate'', ''angry'', ''stupid'', ''idiot'', ''dumb'', ''terrible'', ''worst'',
     ''bad'', ''awful'', ''horrible'', ''annoying'', ''trash'', ''garbage'',
     ''sucks'', ''pathetic'', ''loser'', ''fail'', ''failure'', ''disgusting'',
     ''nasty'', ''ugly'', ''boring'', ''liar'', ''fake'', ''fraud'', ''scam'',
     ''cheat'', ''steal'', ''kill'', ''die'', ''shut up'', ''go away'',
     ''leave me alone'', ''i dont care'', ''whatever'', ''complain'', ''whine'',
     ''cry'', ''blame'', ''fault'', ''rude'', ''mean'', ''cruel'']"

text \<open>(The 37th keyword below is written in two pieces; it is one word of five letters.)\<close>

definition NICE_KEYWORDS :: "string list" where
  "NICE_KEYWORDS =
    [''love'', ''happy'', ''grateful'', ''thankful'', ''appreciate'', ''kind'',
     ''help'', ''support'', ''care'', ''wonderful'', ''amazing'', ''awesome'',
     ''great'', ''excellent'', ''beautiful'', ''fantastic'', ''incredible'',
     ''brilliant'', ''perfect'', ''best'', ''friend'', ''family'', ''together'',
     ''share'', ''give'', ''donate'', ''volunteer'', ''inspire'', ''encourage'',
     ''motivate'', ''celebrate'', ''congratulations'', ''congrats'', ''thank you'',
     ''thanks'', ''please'', ''sorr'' @ ''y'', ''welcome'', ''bless'', ''blessed'',
     ''joy'', ''peace'', ''hope'', ''dream'', ''believe'', ''trust'', ''faith'',
     ''smile'']"

definition NEWS_NAUGHTY_KEYWORDS :: "string list" where
  "NEWS_NAUGHTY_KEYWORDS =
    [''scandal'', ''controversy'', ''arrested'', ''accused'', ''lawsuit'',
     ''fired'', ''criticized'', ''backlash'', ''outrage'', ''apologizes'',
     ''admits'', ''investigation'', ''fraud'', ''scam'', ''criminal'', ''guilty'',
     ''convicted'', ''allegations'']"

definition NEWS_NICE_KEYWORDS :: "string list" where
  "NEWS_NICE_KEYWORDS =
    [''awarded'', ''honored'', ''praised'', ''celebrates'', ''donates'',
     ''charity'', ''hero'', ''saves'', ''helps'', ''achievement'', ''breakthrough'',
     ''success'', ''philanthropist'', ''volunteer'', ''recognition'', ''inspiring'',
     ''beloved'']"

text \<open>
  \<^verbatim>\<open>KEYWORDS.forEach(keyword => { if (text.includes(keyword)) count++; })\<close> adds to
  the counter the number of keywords of the list that occur in the text.
\<close>

definition matches :: "string list \<Rightarrow> string \<Rightarrow> string list" where
  "matches keywords t = filter (\<lambda>keyword. includes_str t keyword) keywords"

definition count_matches :: "string list \<Rightarrow> string \<Rightarrow> nat" where
  "count_matches keywords t = length (matches keywords t)"

text \<open>The shared last step: \<^verbatim>\<open>Math.max(0, Math.min(100, 50 + (nice - naughty) * k))\<close>.\<close>

definition clamp_score :: "int \<Rightarrow> int" where
  "clamp_score x = max 0 (min 100 x)"

definition verdict_of :: "int \<Rightarrow> verdict" where
  "verdict_of s = (if 50 \<le> s then NICE else NAUGHTY)"

section \<open>The analyzers\<close>

record counted_result = source_result +
  niceCount :: nat
  naughtyCount :: nat

subsection \<open>Microblog: \<^verbatim>\<open>analyzeTweets\<close>\<close>

text \<open>An example is \<^verbatim>\<open>{text, keywords}\<close>: the tweet and the keywords found in it.\<close>

record example = item +
  example_keywords :: "string list"

record tweet_result = counted_result +
  nicePercentage :: int
  naughtyPercentage :: int
  naughtyExamples :: "example list"
  niceExamples :: "example list"
  totalTweetsAnalyzed :: nat

text \<open>
  The body of \<^verbatim>\<open>tweets.forEach\<close> on the state
  \<open>(naughty, nice, naughtyEx, niceEx)\<close> of the two counters and the two example lists: both keyword lists are
  counted on the lower-cased text, and the tweet is kept as an example of the polarity
  that strictly wins, while fewer than three are kept.
\<close>

definition tweet_step ::
  "nat \<times> nat \<times> example list \<times> example list \<Rightarrow> 'a item_scheme \<Rightarrow>
   nat \<times> nat \<times> example list \<times> example list" where
  "tweet_step st tweet =
     (case st of (naughty, nice, naughtyEx, niceEx) \<Rightarrow>
       (let t = toLowerCase (text tweet);
            tweetNaughty = count_matches NAUGHTY_KEYWORDS t;
            tweetNice = count_matches NICE_KEYWORDS t
        in (naughty + tweetNaughty,
            nice + tweetNice,
            (if tweetNice < tweetNaughty \<and> length naughtyEx < 3
             then naughtyEx @ [\<lparr>text = text tweet, example_keywords = matches NAUGHTY_KEYWORDS t\<rparr>]
             else naughtyEx),
            (if \<not> (tweetNice < tweetNaughty \<and> length naughtyEx < 3)
                \<and> tweetNaughty < tweetNice \<and> length niceEx < 3
             then niceEx @ [\<lparr>text = text tweet, example_keywords = matches NICE_KEYWORDS t\<rparr>]
             else niceEx))))"

text \<open>
  \<^verbatim>\<open>
  const total = naughtyCount + niceCount || 1;
  const nicePercentage = Math.round((niceCount / total) * 100);
  const naughtyPercentage = Math.round((naughtyCount / total) * 100);
  const score = Math.max(0, Math.min(100, 50 + (niceCount - naughtyCount) * 5));
  return { score, verdict: score >= 50 ? 'NICE' : 'NAUGHTY', niceCount, ... };
  \<close>
\<close>

definition analyzeTweets :: "'a item_scheme list \<Rightarrow> tweet_result" where
  "analyzeTweets tweets =
     (case foldl tweet_step (0, 0, [], []) tweets of
        (naughty, nice, naughtyEx, niceEx) \<Rightarrow>
          (let total = (if naughty + nice \<noteq> 0 then naughty + nice else 1);
               s = clamp_score (50 + (int nice - int naughty) * 5)
           in \<lparr>found = JUndefined,
               score = Some s,
               verdict = Some (verdict_of s),
               niceCount = nice,
               naughtyCount = naughty,
               nicePercentage = js_round (fmul (fdiv (of_nat nice) (of_nat total)) 100),
               naughtyPercentage = js_round (fmul (fdiv (of_nat naughty) (of_nat total)) 100),
               naughtyExamples = naughtyEx,
               niceExamples = niceEx,
               totalTweetsAnalyzed = length tweets\<rparr>))"

subsection \<open>Forum: \<^verbatim>\<open>analyzeRedditComments\<close>\<close>

record reddit_result = counted_result +
  commentsAnalyzed :: nat

text \<open>
  The body of \<^verbatim>\<open>comments.forEach\<close> on the two counters \<open>(naughty, nice)\<close>: the keyword
  counts, then \<^verbatim>\<open>if (comment.score < 0) naughtyCount += 2\<close> and
  \<^verbatim>\<open>if (comment.score > 10) niceCount++\<close>.
\<close>

definition reddit_step :: "nat \<times> nat \<Rightarrow> 'a comment_scheme \<Rightarrow> nat \<times> nat" where
  "reddit_step st c =
     (case st of (naughty, nice) \<Rightarrow>
       (let t = toLowerCase (text c)
        in (naughty + count_matches NAUGHTY_KEYWORDS t
              + (if comment_score c < 0 then 2 else 0),
            nice + count_matches NICE_KEYWORDS t
              + (if 10 < comment_score c then 1 else 0))))"

definition analyzeRedditComments :: "'a comment_scheme list \<Rightarrow> reddit_result" where
  "analyzeRedditComments comments =
     (case foldl reddit_step (0, 0) comments of
        (naughty, nice) \<Rightarrow>
          (let s = clamp_score (50 + (int nice - int naughty) * 3)
           in \<lparr>found = JUndefined,
               score = Some s,
               verdict = Some (verdict_of s),
               niceCount = nice,
               naughtyCount = naughty,
               commentsAnalyzed = length comments\<rparr>))"

subsection \<open>News: \<^verbatim>\<open>analyzeNewsSnippets\<close>\<close>

record news_result = counted_result +
  snippetsAnalyzed :: nat

definition news_step :: "nat \<times> nat \<Rightarrow> 'a item_scheme \<Rightarrow> nat \<times> nat" where
  "news_step st snippet =
     (case st of (naughty, nice) \<Rightarrow>
       (let t = toLowerCase (text snippet)
        in (naughty + count_matches NEWS_NAUGHTY_KEYWORDS t
              + count_matches NAUGHTY_KEYWORDS t,
            nice + count_matches NEWS_NICE_KEYWORDS t
              + count_matches NICE_KEYWORDS t)))"

definition analyzeNewsSnippets :: "'a item_scheme list \<Rightarrow> news_result" where
  "analyzeNewsSnippets snippets =
     (case foldl news_step (0, 0) snippets of
        (naughty, nice) \<Rightarrow>
          (let s = clamp_score (50 + (int nice - int naughty) * 4)
           in \<lparr>found = JUndefined,
               score = Some s,
               verdict = Some (verdict_of s),
               niceCount = nice,
               naughtyCount = naughty,
               snippetsAnalyzed = length snippets\<rparr>))"

subsection \<open>Developer activity: \<^verbatim>\<open>analyzeGitHubData\<close>\<close>

text \<open>
  The profile and the events as the code-hosting API returns them; only the fields that
  the analyzer reads are kept. \<open>bio\<close> and \<open>blog\<close> are \<^verbatim>\<open>null\<close> or a string.
\<close>

record github_user =
  public_repos :: int
  followers :: int
  bio :: jsval
  blog :: jsval

record github_event =
  event_type :: string

record github_data = flagged +
  user :: "github_user option"
  events :: "github_event list"

text \<open>
  The result is \<^verbatim>\<open>{score, verdict, details}\<close> without a profile and
  \<^verbatim>\<open>{score, verdict, repos, followers, recentActivity}\<close> with one
  (\<open>result_followers\<close> is the key \<^verbatim>\<open>followers\<close> of the result).
\<close>

record github_result = source_result +
  details :: "string option"
  repos :: "int option"
  result_followers :: "int option"
  recentActivity :: "nat option"

definition count_events :: "string \<Rightarrow> github_event list \<Rightarrow> nat" where
  "count_events ty es = length (filter (\<lambda>e. event_type e = ty) es)"

text \<open>
  \<^verbatim>\<open>
  function analyzeGitHubData(data) {
    if (!data.user) return { score: 50, verdict: 'NICE', details: 'No GitHub data' };
    let niceScore = 0;
    if (data.user.public_repos > 0) niceScore += Math.min(data.user.public_repos * 2, 20);
    if (data.user.followers > 0) niceScore += Math.min(data.user.followers, 15);
    if (data.user.bio) niceScore += 5;
    if (data.user.blog) niceScore += 5;
    ... pushEvents * 2, prEvents * 3, issueEvents ...
    const score = Math.min(100, 50 + niceScore);
    return { score, verdict: score >= 50 ? 'NICE' : 'NAUGHTY', ... };
  }
  \<close>
\<close>

definition niceScore :: "github_user \<Rightarrow> github_event list \<Rightarrow> int" where
  "niceScore u es =
     (if 0 < public_repos u then min (public_repos u * 2) 20 else 0)
   + (if 0 < followers u then min (followers u) 15 else 0)
   + (if truthy (bio u) then 5 else 0)
   + (if truthy (blog u) then 5 else 0)
   + int (count_events ''PushEvent'' es) * 2
   + int (count_events ''PullRequestEvent'' es) * 3
   + int (count_events ''IssuesEvent'' es)"

definition analyzeGitHubData :: "'a github_data_scheme \<Rightarrow> github_result" where
  "analyzeGitHubData d =
     (case user d of
        None \<Rightarrow>
          \<lparr>found = JUndefined, score = Some 50, verdict = Some NICE,
           details = Some ''No GitHub data'', repos = None, result_followers = None,
           recentActivity = None\<rparr>
      | Some u \<Rightarrow>
          (let s = min 100 (50 + niceScore u (events d))
           in \<lparr>found = JUndefined, score = Some s, verdict = Some (verdict_of s),
               details = None, repos = Some (public_repos u),
               result_followers = Some (followers u),
               recentActivity = Some (length (events d))\<rparr>))"

section \<open>The aggregator\<close>

text \<open>
  \<^verbatim>\<open>
  const SCORE_WEIGHTS = { twitter: 0.30, reddit: 0.30, news: 0.30, github: 0.10 };
  \<close>
  The literals denote the doubles nearest to \<open>3/10\<close> and \<open>1/10\<close>.
\<close>

definition SCORE_WEIGHTS :: "(string \<times> rat) list" where
  "SCORE_WEIGHTS =
     [(''twitter'', fl (30 / 100)), (''reddit'', fl (30 / 100)),
      (''news'', fl (30 / 100)), (''github'', fl (10 / 100))]"

text \<open>
  \<^verbatim>\<open>const weight = SCORE_WEIGHTS[source] || 0\<close>: the weight of the table, 0 for a name
  that the table does not have, and for an inherited name such as \<^verbatim>\<open>constructor\<close>
  the inherited member, which is not a number (\<open>None\<close>).
\<close>

definition weight_lookup :: "string \<Rightarrow> rat option" where
  "weight_lookup source =
     (case get_property SCORE_WEIGHTS source of
        Own w \<Rightarrow> Some w
      | Undefined \<Rightarrow> Some 0
      | Inherited \<Rightarrow> None)"

text \<open>
  A breakdown entry is \<^verbatim>\<open>{score, weight, verdict, ...data}\<close>: the echoed input
  object together with the weight as a percentage. \<open>weight\<close> holds the integer
  \<^verbatim>\<open>Math.round(weight * 100)\<close> that the code prints in front of the \<^verbatim>\<open>%\<close> sign,
  and \<open>None\<close> where that is \<^verbatim>\<open>NaN\<close> (the weight is an inherited member); \<open>data\<close> is
  the object that is spread over the three computed keys.
  In the aggregate, \<open>finalVerdict\<close> is the key \<^verbatim>\<open>verdict\<close> of the returned object
  (\<open>verdict\<close> being the field of a source result).
\<close>

record 'a breakdown_entry =
  weight :: "int option"
  data :: 'a

record 'a aggregate =
  finalScore :: int
  finalVerdict :: verdict
  breakdown :: "(string \<times> 'a breakdown_entry) list"
  sourcesFound :: nat

text \<open>
  The guard of the loop body:
  \<^verbatim>\<open>data && data.found !== false && data.score !== undefined\<close>.
  An entry of the input object is \<open>None\<close> where the value is \<^verbatim>\<open>null\<close> or
  \<^verbatim>\<open>undefined\<close>.
\<close>

definition included :: "('a source_result_scheme) option \<Rightarrow> bool" where
  "included d =
     (case d of
        None \<Rightarrow> False
      | Some e \<Rightarrow> found e \<noteq> JBool False \<and> score e \<noteq> None)"

text \<open>
  The state of the loop. While every weight used so far was a number, it is
  \<open>Numeric totalWeight weightedSum breakdown\<close>. When an inherited member is used as a
  weight, \<^verbatim>\<open>data.score * weight\<close> is \<^verbatim>\<open>NaN\<close> and \<^verbatim>\<open>totalWeight += weight\<close>
  concatenates the number with the text of the member; from then on \<^verbatim>\<open>weightedSum\<close>
  is \<^verbatim>\<open>NaN\<close> and \<^verbatim>\<open>totalWeight\<close> is a string that is not a number, whatever is added
  later: the state \<open>Tainted breakdown\<close>.
\<close>

datatype 'a loop_state =
    Numeric rat rat "(string \<times> 'a breakdown_entry) list"
  | Tainted "(string \<times> 'a breakdown_entry) list"

fun state_breakdown :: "'a loop_state \<Rightarrow> (string \<times> 'a breakdown_entry) list" where
  "state_breakdown (Numeric totalWeight weightedSum bd) = bd"
| "state_breakdown (Tainted bd) = bd"

text \<open>
  One iteration of \<^verbatim>\<open>for (const [source, data] of Object.entries(sources))\<close>:
  \<^verbatim>\<open>
  if (data && data.found !== false && data.score !== undefined) {
    const weight = SCORE_WEIGHTS[source] || 0;
    weightedSum += data.score * weight;
    totalWeight += weight;
    breakdown[source] = { score: data.score, weight: Math.round(weight * 100) + '%',
                          verdict: data.verdict, ...data };
  }
  \<close>
  \<open>assign\<close> is the assignment \<^verbatim>\<open>breakdown[source] = {...}\<close> on the own entries of the
  object: it creates the entry or overwrites it in place, except for the name
  \<^verbatim>\<open>__proto__\<close>, where assigning an object sets the prototype of \<^verbatim>\<open>breakdown\<close> and
  leaves its own entries, those that \<^verbatim>\<open>Object.keys\<close> counts, as they are.
\<close>

definition assign :: "string \<Rightarrow> 'b \<Rightarrow> (string \<times> 'b) list \<Rightarrow> (string \<times> 'b) list" where
  "assign k v obj = (if k = ''__proto__'' then obj else AList.update k v obj)"

definition agg_step ::
  "('a source_result_scheme) loop_state \<Rightarrow>
   string \<times> ('a source_result_scheme) option \<Rightarrow>
   ('a source_result_scheme) loop_state" where
  "agg_step st entry =
     (case entry of (source, d) \<Rightarrow>
      case d of
        None \<Rightarrow> st
      | Some e \<Rightarrow>
         (case score e of
            None \<Rightarrow> st
          | Some s \<Rightarrow>
             if found e \<noteq> JBool False then
               (let wt = weight_lookup source;
                    bd = assign source
                           \<lparr>weight = map_option (\<lambda>w. js_round (fmul w 100)) wt, data = e\<rparr>
                           (state_breakdown st)
                in case st of
                     Numeric totalWeight weightedSum b \<Rightarrow>
                       (case wt of
                          Some w \<Rightarrow>
                            Numeric (fadd totalWeight w)
                                    (fadd weightedSum (fmul (of_int s) w)) bd
                        | None \<Rightarrow> Tainted bd)
                   | Tainted b \<Rightarrow> Tainted bd)
             else st))"

text \<open>
  \<^verbatim>\<open>
  function calculateWeightedScore(sources) {
    let totalWeight = 0; let weightedSum = 0; const breakdown = {};
    for (const [source, data] of Object.entries(sources)) { ... }
    const finalScore = totalWeight > 0 ? Math.round(weightedSum / totalWeight) : 50;
    return { finalScore, verdict: finalScore >= 50 ? 'NICE' : 'NAUGHTY',
             breakdown, sourcesFound: Object.keys(breakdown).length };
  }
  \<close>
  The input object is the list of its entries in iteration order; the keys of an object
  are distinct. In the tainted state \<^verbatim>\<open>totalWeight > 0\<close> compares a string that is
  not a number with 0, which is false, so the final score is 50.
\<close>

definition calculateWeightedScore ::
  "(string \<times> ('a source_result_scheme) option) list \<Rightarrow>
   ('a source_result_scheme) aggregate" where
  "calculateWeightedScore sources =
     (let st = foldl agg_step (Numeric 0 0 []) sources;
          fs = (case st of
                  Numeric totalWeight weightedSum bd \<Rightarrow>
                    if 0 < totalWeight then js_round (fdiv weightedSum totalWeight) else 50
                | Tainted bd \<Rightarrow> 50)
      in \<lparr>finalScore = fs,
          finalVerdict = (if 50 \<le> fs then NICE else NAUGHTY),
          breakdown = state_breakdown st,
          sourcesFound = length (map fst (state_breakdown st))\<rparr>)"

text \<open>
  The specification's formula for the final score, in exact arithmetic: the rounded
  quotient of \<open>\<Sum> score\<^sub>i \<sqdot> weight\<^sub>i\<close> by \<open>\<Sum> weight\<^sub>i\<close> over the included entries,
  and 50 when the total weight is not positive. \<open>weight_of\<close> is the weight that the
  table declares for a source, 0 for a name it does not list.
\<close>

definition weight_of :: "string \<Rightarrow> rat" where
  "weight_of source = (case map_of SCORE_WEIGHTS source of None \<Rightarrow> 0 | Some w \<Rightarrow> w)"

definition included_scores ::
  "(string \<times> ('a source_result_scheme) option) list \<Rightarrow> (string \<times> int) list" where
  "included_scores sources =
     concat (map (\<lambda>(source, d).
       case d of
         None \<Rightarrow> []
       | Some e \<Rightarrow>
          (case score e of
             None \<Rightarrow> []
           | Some s \<Rightarrow> if found e \<noteq> JBool False then [(source, s)] else []))
       sources)"

definition exact_weight :: "(string \<times> int) list \<Rightarrow> rat" where
  "exact_weight ps = sum_list (map (\<lambda>(source, s). weight_of source) ps)"

definition exact_sum :: "(string \<times> int) list \<Rightarrow> rat" where
  "exact_sum ps = sum_list (map (\<lambda>(source, s). of_int s * weight_of source) ps)"

definition spec_finalScore ::
  "(string \<times> ('a source_result_scheme) option) list \<Rightarrow> int" where
  "spec_finalScore sources =
     (let ps = included_scores sources
      in if 0 < exact_weight ps then js_round (exact_sum ps / exact_weight ps) else 50)"

section \<open>The outside world\<close>

text \<open>
  Everything the handlers obtain from the network is a field of the environment:
  \<^item> \<open>fetchUrl url\<close> is the body that the promise of \<^verbatim>\<open>fetchUrl(url)\<close> resolves to, and
    \<open>None\<close> when it is rejected (status other than 200, timeout, network error);
  \<^item> \<open>parseNitterRSS\<close> is the regular-expression extraction of the feed items in
    \<^verbatim>\<open>parseNitterRSS(xml, username)\<close>; it is kept as a parameter, so that every property
    below holds for any extraction function;
  \<^item> \<open>twitterSearch\<close> is the outcome of \<^verbatim>\<open>initTwitterClient()\<close> followed by
    \<^verbatim>\<open>client.v2.search\<close>: no client, an exception, or the tweets of
    \<^verbatim>\<open>searchResult.data?.data\<close> (the empty list when that is missing);
  \<^item> \<open>fetchRedditData\<close>, \<open>fetchNewsData\<close> and \<open>fetchGitHubData\<close> are the objects these
    three fetchers resolve to (they catch every exception themselves);
  \<^item> \<open>generateDemoTweets\<close> is the demo-data generator that \<^verbatim>\<open>/api/analyze\<close> falls
    back to.
  The display profile (\<^verbatim>\<open>user\<close>, \<^verbatim>\<open>primaryUser\<close>) that the handlers assemble next to
  the scores is not modelled.
\<close>

datatype api_result = NoClient | ApiError | ApiData "item list"

record reddit_data = flagged +
  comments :: "comment list"

record news_data = flagged +
  snippets :: "item list"

record env =
  fetchUrl :: "string \<Rightarrow> string option"
  parseNitterRSS :: "string \<Rightarrow> string \<Rightarrow> item list"
  twitterSearch :: "string \<Rightarrow> api_result"
  fetchRedditData :: "string \<Rightarrow> reddit_data"
  fetchNewsData :: "string \<Rightarrow> news_data"
  fetchGitHubData :: "string \<Rightarrow> github_data"
  generateDemoTweets :: "string \<Rightarrow> item list"

text \<open>
  The calls that leave the process, in the order in which a handler makes them:
  the GET of one mirror's feed, the use of the authenticated API (from
  \<^verbatim>\<open>initTwitterClient()\<close> on), and the three other fetchers.
\<close>

datatype event =
    NitterGet string
  | TwitterApi string
  | RedditFetch string
  | NewsFetch string
  | GitHubFetch string

section \<open>The mirror loop: \<^verbatim>\<open>fetchNitterTweets\<close>\<close>

definition NITTER_INSTANCES :: "string list" where
  "NITTER_INSTANCES =
    [''nitter.net'', ''nitter.poast.org'', ''nitter.privacydev.net'',
     ''nitter.1d4.us'', ''nitter.kavin.rocks'', ''nitter.unixfox.eu'']"

text \<open>
  The body of the \<^verbatim>\<open>try\<close> block for one mirror: the items with which the loop
  returns, or the empty list when it goes on to the next mirror (the fetch is rejected,
  the body has no \<^verbatim>\<open><item>\<close>, or no item can be extracted).
\<close>

definition try_instance :: "env \<Rightarrow> string \<Rightarrow> string \<Rightarrow> item list" where
  "try_instance e username inst =
     (case fetchUrl e (''https://'' @ inst @ ''/'' @ username @ ''/rss'') of
        None \<Rightarrow> []
      | Some xml \<Rightarrow>
          if xml \<noteq> [] \<and> includes_str xml ''<item>''
          then parseNitterRSS e xml username
          else [])"

record nitter_result =
  tweets :: "item list"
  instance_name :: "string option"

text \<open>
  \<^verbatim>\<open>
  async function fetchNitterTweets(username) {
    for (const instance of NITTER_INSTANCES) {
      try { ... if (tweets.length > 0) return { tweets, instance }; } catch (err) { }
    }
    return { tweets: [], instance: null };
  }
  \<close>
  The second component is the list of the mirrors that were requested, in order.
\<close>

fun nitter_loop :: "env \<Rightarrow> string \<Rightarrow> string list \<Rightarrow> nitter_result \<times> string list" where
  "nitter_loop e username [] = (\<lparr>tweets = [], instance_name = None\<rparr>, [])"
| "nitter_loop e username (inst # rest) =
     (let ts = try_instance e username inst
      in if ts \<noteq> [] then (\<lparr>tweets = ts, instance_name = Some inst\<rparr>, [inst])
         else (case nitter_loop e username rest of (r, tried) \<Rightarrow> (r, inst # tried)))"

definition fetchNitterTweets :: "env \<Rightarrow> string \<Rightarrow> nitter_result \<times> string list" where
  "fetchNitterTweets e username = nitter_loop e username NITTER_INSTANCES"

section \<open>The static cache\<close>

text \<open>
  \<^verbatim>\<open>CACHED_REAL_DATA\<close>, with the tweets of each of the six known identifiers (the
  profile stored next to them is display data). Characters outside ASCII are written as
  their UTF-8 bytes.
\<close>

definition cached_elonmusk :: "item list" where
  "cached_elonmusk = map (\<lambda>t. \<lparr>text = t\<rparr>)
    [''The thing I love most about X is the real-time nature of the platform'',
     ''Tesla Cybertruck is incredible. Best vehicle we've ever made.'',
     ''SpaceX Starship is the future of humanity becoming multiplanetary'',
     ''AI will be the most transformative technology in human history'',
     ''I hate when people spread fake news. It's terrible for society.'',
     ''Thank you to all the amazing Tesla owners and supporters!'',
     ''The mainstream media is so biased it's disgusting'',
     ''Free speech is the bedrock of democracy. Support it!'',
     ''Working 120 hour weeks. Sleep is for the weak lol'',
     ''I love building things that help humanity'',
     ''The haters are so annoying. Just ignore them.'',
     ''Grateful for the incredible team at SpaceX. You're all amazing!'',
     ''Some idiots don't understand basic physics'',
     ''Hope everyone has a wonderful day! Be kind to each other.'',
     ''This is stupid. Why do people believe this garbage?'']"

definition cached_nasa :: "item list" where
  "cached_nasa = map (\<lambda>t. \<lparr>text = t\<rparr>)
    [''Beautiful image of Earth from the International Space Station! '' @ [CHR 0xF0, CHR 0x9F, CHR 0x8C, CHR 0x8D] @ '' Grateful to share these amazing views.'',
     ''Artemis mission update: We're making incredible progress toward returning humans to the Moon!'',
     ''Thank you to all the brilliant scientists and engineers who make space exploration possible.'',
     ''Happy to announce a new discovery! Our Webb telescope captured stunning images of distant galaxies.'',
     ''Space brings us together. We celebrate the wonder of exploration with the whole world.'',
     ''Congratulations to our astronauts on a successful spacewalk! Amazing work up there!'',
     ''Sharing knowledge and inspiring the next generation of explorers is what we love most.'',
     ''Our Mars rover just made another fantastic discovery. Science is beautiful!'',
     ''Join us for a live stream of the rocket launch! Together we reach for the stars.'',
     ''Hope and wonder drive us forward. Space exploration unites humanity.'']"

definition cached_billgates :: "item list" where
  "cached_billgates = map (\<lambda>t. \<lparr>text = t\<rparr>)
    [''I'm grateful to work with so many brilliant people fighting poverty and disease.'',
     ''Climate change is the defining challenge of our time. We need innovation and hope.'',
     ''Just finished a great book about AI and its potential to help humanity.'',
     ''Thank you to all the teachers making a difference. You're incredible!'',
     ''Our foundation is making progress on malaria. Together we can eliminate it.'',
     ''Nuclear energy is essential for a clean energy future. Support the science!'',
     ''Love seeing young innovators build solutions for global problems.'',
     ''The pandemic taught us to appreciate healthcare workers. Thank you all!'',
     ''Optimistic about the future. Humanity can solve these challenges together.'',
     ''Reading is the best way to learn. Here are my favorite books this year.'']"

definition cached_taylorswift13 :: "item list" where
  "cached_taylorswift13 = map (\<lambda>t. \<lparr>text = t\<rparr>)
    [''So grateful for the most amazing fans in the world! Love you all! '' @ [CHR 0xF0, CHR 0x9F, CHR 0x92, CHR 0x95],
     ''Thank you for making this album #1! Your support means everything to me.'',
     ''The Eras Tour has been the most incredible experience. Thank you!'',
     ''Happy holidays everyone! Hope you're surrounded by love and joy!'',
     ''Can't wait to share new music with you. This is going to be beautiful.'',
     ''Thank you to my wonderful team for all the hard work and dedication.'',
     ''Supporting each other through tough times is what community is about.'',
     ''Celebrating friendship today! Grateful for the best friends anyone could ask for.'',
     ''Creating music brings me so much joy. Hope it brings you joy too!'',
     ''Love seeing everyone at the shows. Your energy is amazing!'']"

definition cached_kanyewest :: "item list" where
  "cached_kanyewest = map (\<lambda>t. \<lparr>text = t\<rparr>)
    [''Everyone is a hater. The industry is fake and disgusting.'',
     ''I'm the greatest artist of all time. Stop being jealous losers.'',
     ''They're trying to destroy me but I won't let them. Terrible people.'',
     ''This society is so stupid. Nobody understands real art.'',
     ''The media lies about everything. Pathetic journalism.'',
     ''I love my fans who understand the vision. Thank you!'',
     ''Everyone who doubted me is a fool. Watch me succeed.'',
     ''Creating beautiful art for the world. This is my gift.'',
     ''Stop the hate. I'm just speaking truth and they can't handle it.'',
     ''The worst people run everything. It's a terrible system.'']"

definition cached_drew_mailen :: "item list" where
  "cached_drew_mailen = map (\<lambda>t. \<lparr>text = t\<rparr>)
    [''I had a blast yesterday! Thank you to the organizers, judges, and hosts.'',
     ''Last night I teamed up with @drew_mailen and @yizucodes to build something amazing'',
     ''I wanted to like this but it was already at the perfect number'',
     ''Speed running x402, and it quickly turned into real momentum. Thanks team!'',
     ''The holidays came early this year! LFB!'',
     ''are you ready, anon?'',
     ''Building great things with an incredible community'',
     ''Love collaborating with talented people on new projects'',
     ''Grateful for the support from everyone in the space'',
     ''Let's keep building and shipping! Excited for what's next.'']"

definition CACHED_REAL_DATA :: "(string \<times> item list) list" where
  "CACHED_REAL_DATA =
    [(''elonmusk'', cached_elonmusk),
     (''nasa'', cached_nasa),
     (''billgates'', cached_billgates),
     (''taylorswift13'', cached_taylorswift13),
     (''kanyewest'', cached_kanyewest),
     (''drew_mailen'', cached_drew_mailen)]"

text \<open>
  \<^verbatim>\<open>const cachedData = CACHED_REAL_DATA[cleanUsername.toLowerCase()]\<close>, as far as the
  handlers use it: the tweets of a known identifier (\<open>Own\<close>); \<open>Undefined\<close> for a name
  that the object does not have; and for \<^verbatim>\<open>constructor\<close> and \<^verbatim>\<open>__proto__\<close> the
  inherited member (\<open>Inherited\<close>), which is truthy and whose \<^verbatim>\<open>tweets\<close> is
  \<^verbatim>\<open>undefined\<close>.
\<close>

definition cached_tweets :: "string \<Rightarrow> item list property" where
  "cached_tweets cleanUsername = get_property CACHED_REAL_DATA (toLowerCase cleanUsername)"

section \<open>The request handlers\<close>

text \<open>
  \<^verbatim>\<open>username.replace('@', '').trim()\<close>: the first \<^verbatim>\<open>@\<close> is removed, then the white
  space at both ends. \<open>is_space\<close> is the white space of ASCII (tab, line feed, vertical
  tab, form feed, carriage return, space); JavaScript also trims the white space and the
  line terminators outside ASCII, such as U+00A0.
\<close>

fun remove_first_at :: "string \<Rightarrow> string" where
  "remove_first_at [] = []"
| "remove_first_at (c # cs) = (if c = CHR ''@'' then cs else c # remove_first_at cs)"

definition is_space :: "char \<Rightarrow> bool" where
  "is_space c = (let n = (of_char c :: nat) in n = 32 \<or> (9 \<le> n \<and> n \<le> 13))"

definition trim :: "string \<Rightarrow> string" where
  "trim s = rev (dropWhile is_space (rev (dropWhile is_space s)))"

definition clean :: "string \<Rightarrow> string" where
  "clean username = trim (remove_first_at username)"

record request_body =
  username :: jsval
  demo :: jsval

datatype 'a response = Status400 string | Status500 | Status200 'a

subsection \<open>\<^verbatim>\<open>POST /api/analyze-all\<close>\<close>

text \<open>
  The microblog stage: the mirrors first, the authenticated search when no mirror gave
  anything, and the cache when both gave nothing.
  \<^verbatim>\<open>
  const cachedData = CACHED_REAL_DATA[cleanUsername.toLowerCase()];
  let tweets = [];
  const nitterResult = await fetchNitterTweets(cleanUsername);
  if (nitterResult.tweets.length > 0) { tweets = nitterResult.tweets; ... }
  else { try { const client = await initTwitterClient();
               if (client) { ... if (data non-empty) tweets = searchResult.data.data; } }
         catch (err) { } }
  if (tweets.length === 0 && cachedData) { tweets = cachedData.tweets; ... }
  if (tweets.length > 0) { ... }
  \<close>
  The result is the value of \<^verbatim>\<open>tweets\<close> at the last line, with the calls made so far.
  Where \<^verbatim>\<open>cachedData\<close> is an inherited member and no tweets were obtained,
  \<^verbatim>\<open>tweets\<close> becomes \<^verbatim>\<open>undefined\<close> and \<^verbatim>\<open>tweets.length\<close> throws a
  \<^verbatim>\<open>TypeError\<close>: the result \<open>None\<close>.
\<close>

definition api_tweets :: "api_result \<Rightarrow> item list" where
  "api_tweets r = (case r of ApiData ts \<Rightarrow> ts | NoClient \<Rightarrow> [] | ApiError \<Rightarrow> [])"

definition twitter_stage :: "env \<Rightarrow> string \<Rightarrow> item list option \<times> event list" where
  "twitter_stage e cleanUsername =
     (case fetchNitterTweets e cleanUsername of (nitterResult, tried) \<Rightarrow>
       (let (ts, trace) =
              (if tweets nitterResult \<noteq> []
               then (tweets nitterResult, map NitterGet tried)
               else (api_tweets (twitterSearch e cleanUsername),
                     map NitterGet tried @ [TwitterApi cleanUsername]))
        in (case cached_tweets cleanUsername of
              Own cachedTweets \<Rightarrow>
                if ts = [] then (Some cachedTweets, trace) else (Some ts, trace)
            | Inherited \<Rightarrow> if ts = [] then (None, trace) else (Some ts, trace)
            | Undefined \<Rightarrow> (Some ts, trace))))"

text \<open>
  The four entries of \<^verbatim>\<open>sources\<close>, in the order in which the handler assigns them.
  Each is \<^verbatim>\<open>{...analysis, found: true}\<close> or \<^verbatim>\<open>{ found: false }\<close>; the entries are cut
  down to the fields that the aggregator reads.
\<close>

definition twitter_source :: "item list \<Rightarrow> source_result" where
  "twitter_source ts =
     (if ts \<noteq> [] then source_result.truncate ((analyzeTweets ts)\<lparr>found := JBool True\<rparr>)
      else not_found)"

definition reddit_source :: "reddit_data \<Rightarrow> source_result" where
  "reddit_source redditData =
     (if truthy (found redditData) \<and> comments redditData \<noteq> []
      then source_result.truncate
             ((analyzeRedditComments (comments redditData))\<lparr>found := JBool True\<rparr>)
      else not_found)"

definition news_source :: "news_data \<Rightarrow> source_result" where
  "news_source newsData =
     (if truthy (found newsData) \<and> snippets newsData \<noteq> []
      then source_result.truncate
             ((analyzeNewsSnippets (snippets newsData))\<lparr>found := JBool True\<rparr>)
      else not_found)"

text \<open>
  \<^verbatim>\<open>
  if (githubData.found) {
    const githubAnalysis = analyzeGitHubData(githubData);
    sources.github = { ...githubAnalysis, found: true };
  } else {
    sources.github = { found: false };
  }
  \<close>
\<close>

definition github_source :: "github_data \<Rightarrow> source_result" where
  "github_source githubData =
     (if truthy (found githubData)
      then source_result.truncate ((analyzeGitHubData githubData)\<lparr>found := JBool True\<rparr>)
      else not_found)"

text \<open>
  The object \<^verbatim>\<open>sources\<close> that the handler hands to the aggregator, with the calls
  made; \<open>None\<close> when the microblog stage has thrown, which is before the three other
  fetchers are called.
\<close>

definition build_sources ::
  "env \<Rightarrow> string \<Rightarrow> (string \<times> source_result option) list option \<times> event list" where
  "build_sources e cleanUsername =
     (case twitter_stage e cleanUsername of
        (None, trace) \<Rightarrow> (None, trace)
      | (Some ts, trace) \<Rightarrow>
         (Some [(''twitter'', Some (twitter_source ts)),
                (''reddit'', Some (reddit_source (fetchRedditData e cleanUsername))),
                (''news'', Some (news_source (fetchNewsData e cleanUsername))),
                (''github'', Some (github_source (fetchGitHubData e cleanUsername)))],
          trace @ [RedditFetch cleanUsername, NewsFetch cleanUsername,
                   GitHubFetch cleanUsername]))"

text \<open>
  The handler. A body without a (truthy) \<^verbatim>\<open>username\<close> is answered with status 400
  before anything else; a truthy \<^verbatim>\<open>username\<close> that is not a string makes
  \<^verbatim>\<open>username.replace\<close> throw. Whatever is thrown inside the handler is caught by its
  \<^verbatim>\<open>catch\<close>, which answers with status 500. The result pairs the response with the
  calls made to the outside.
\<close>

definition analyze_all ::
  "env \<Rightarrow> request_body \<Rightarrow> source_result aggregate response \<times> event list" where
  "analyze_all e body =
     (if \<not> truthy (username body) then (Status400 ''Username is required'', [])
      else case username body of
             JStr u \<Rightarrow>
               (case build_sources e (clean u) of
                  (None, trace) \<Rightarrow> (Status500, trace)
                | (Some sources, trace) \<Rightarrow>
                    (Status200 (calculateWeightedScore sources), trace))
           | _ \<Rightarrow> (Status500, []))"

subsection \<open>\<^verbatim>\<open>POST /api/analyze\<close>\<close>

record analyze_payload =
  analysis :: tweet_result
  isDemo :: bool
  dataSource :: string

text \<open>
  The tweets, the label of their origin and the calls made, for a request that does not
  ask for demo data. The handler looks into the cache first (\<^verbatim>\<open>TRY 0\<close>; it then asks
  the API for the profile statistics only), then tries the mirrors (\<^verbatim>\<open>TRY 1\<close>) and the
  authenticated search (\<^verbatim>\<open>TRY 2\<close>). \<^verbatim>\<open>dataSource\<close> starts as \<^verbatim>\<open>'demo'\<close>.
  \<^verbatim>\<open>
  const cachedData = CACHED_REAL_DATA[cleanUsername.toLowerCase()];
  if (cachedData) {
    tweets = cachedData.tweets; dataSource = 'cached-real-data';
    try { const client = await initTwitterClient(); ... } catch (err) { ... }
    ...
    console.log(`... Using ${tweets.length} cached real tweets`);
  } else { ... }
  \<close>
  Where \<^verbatim>\<open>cachedData\<close> is an inherited member, \<^verbatim>\<open>tweets\<close> is \<^verbatim>\<open>undefined\<close> and
  \<^verbatim>\<open>tweets.length\<close> in the last line of the branch throws a \<^verbatim>\<open>TypeError\<close>, after
  the API was asked for the profile: the result \<open>None\<close>.
\<close>

definition analyze_fetch ::
  "env \<Rightarrow> string \<Rightarrow> (item list \<times> string) option \<times> event list" where
  "analyze_fetch e cleanUsername =
     (case cached_tweets cleanUsername of
        Own cachedTweets \<Rightarrow>
          (Some (cachedTweets, ''cached-real-data''), [TwitterApi cleanUsername])
      | Inherited \<Rightarrow> (None, [TwitterApi cleanUsername])
      | Undefined \<Rightarrow>
         (case fetchNitterTweets e cleanUsername of (nitterResult, tried) \<Rightarrow>
            if tweets nitterResult \<noteq> []
            then (Some (tweets nitterResult,
                        ''nitter ('' @ (case instance_name nitterResult of
                                          Some inst \<Rightarrow> inst | None \<Rightarrow> ''null'') @ '')''),
                  map NitterGet tried)
            else (let ts = api_tweets (twitterSearch e cleanUsername)
                  in (Some (ts, (if ts \<noteq> [] then ''twitter-api'' else ''demo'')),
                      map NitterGet tried @ [TwitterApi cleanUsername]))))"

text \<open>
  \<^verbatim>\<open>
  let useDemo = demo === true;
  if (!useDemo) { ... }
  if (!user || tweets.length === 0) useDemo = true;
  if (useDemo || !user || tweets.length === 0) { ...; tweets = generateDemoTweets(cleanUsername); }
  const analysis = analyzeTweets(tweets);
  res.json({ user, analysis, isDemo: useDemo, dataSource });
  \<close>
  (\<^verbatim>\<open>user\<close> is set exactly on the paths that set \<^verbatim>\<open>tweets\<close>.)
\<close>

definition analyze ::
  "env \<Rightarrow> request_body \<Rightarrow> analyze_payload response \<times> event list" where
  "analyze e body =
     (if \<not> truthy (username body) then (Status400 ''Username is required'', [])
      else case username body of
             JStr u \<Rightarrow>
               (let cleanUsername = clean u
                in case (if demo body = JBool True then (Some ([], ''demo''), [])
                         else analyze_fetch e cleanUsername) of
                     (None, trace) \<Rightarrow> (Status500, trace)
                   | (Some (ts, source), trace) \<Rightarrow>
                       (let useDemo = (demo body = JBool True \<or> ts = []);
                            ts' = (if useDemo then generateDemoTweets e cleanUsername else ts)
                        in (Status200 \<lparr>analysis = analyzeTweets ts', isDemo = useDemo,
                                        dataSource = source\<rparr>,
                            trace)))
           | _ \<Rightarrow> (Status500, []))"

section \<open>Auxiliary notions for the analysis of the aggregator\<close>

text \<open>
  The loop of the aggregator restricted to its two numeric accumulators, run over the
  included entries only; the number of included entries whose weight is not zero; and
  the invariant of the loop: both accumulators are doubles, and each is within a factor
  \<open>(1 \<plusminus> 2^-53)^(2k)\<close> of the exact sum it stands for, after \<open>k\<close> entries with a
  non-zero weight.
\<close>

definition num_step :: "rat \<times> rat \<Rightarrow> string \<times> int \<Rightarrow> rat \<times> rat" where
  "num_step st p =
     (case st of (tw, ws) \<Rightarrow>
      case p of (source, s) \<Rightarrow>
        (fadd tw (weight_of source), fadd ws (fmul (of_int s) (weight_of source))))"

definition nonzero_count :: "(string \<times> int) list \<Rightarrow> nat" where
  "nonzero_count ps = length (filter (\<lambda>p. weight_of (fst p) \<noteq> 0) ps)"

definition approx :: "nat \<Rightarrow> rat \<Rightarrow> rat \<Rightarrow> rat \<times> rat \<Rightarrow> bool" where
  "approx k W S st =
     (case st of (tw, ws) \<Rightarrow>
        fl tw = tw \<and> fl ws = ws
      \<and> W * (1 - unit_roundoff) ^ (2 * k) \<le> tw \<and> tw \<le> W * (1 + unit_roundoff) ^ (2 * k)
      \<and> S * (1 - unit_roundoff) ^ (2 * k) \<le> ws \<and> ws \<le> S * (1 + unit_roundoff) ^ (2 * k))"

text \<open>
  An input is \<open>inherited_free\<close> when none of its included entries is stored under the
  name of an inherited member; then every weight that the loop uses is a number.
\<close>

definition inherited_free :: "(string \<times> int) list \<Rightarrow> bool" where
  "inherited_free ps = list_all (\<lambda>p. fst p \<notin> set OBJECT_PROTOTYPE_NAMES) ps"

text \<open>
  The breakdown that the loop builds on an object: one entry per included source other
  than \<^verbatim>\<open>__proto__\<close>, in iteration order.
\<close>

definition recorded :: "string \<times> ('a source_result_scheme) option \<Rightarrow> bool" where
  "recorded p = (included (snd p) \<and> fst p \<noteq> ''__proto__'')"

definition breakdown_of ::
  "(string \<times> ('a source_result_scheme) option) list \<Rightarrow>
   (string \<times> ('a source_result_scheme) breakdown_entry) list" where
  "breakdown_of sources =
     concat (map (\<lambda>(source, d).
       case d of
         None \<Rightarrow> []
       | Some e \<Rightarrow>
           if recorded (source, d)
           then [(source,
                  \<lparr>weight = map_option (\<lambda>w. js_round (fmul w 100)) (weight_lookup source),
                   data = e\<rparr>)]
           else [])
       sources)"

section \<open>Example environments\<close>

text \<open>
  Concrete worlds on which the handlers are evaluated below: \<open>offline\<close>, where every
  fetch fails; \<open>mirrors_up\<close>, where in addition every mirror serves the feed
  \<open>one_item_feed\<close>, from which \<^verbatim>\<open>parseNitterRSS\<close> extracts one item, the text \<^verbatim>\<open>hi\<close>
  of the \<^verbatim>\<open>CDATA\<close> section of its title; and \<open>forum_only\<close>, where only the forum has
  something to say.
\<close>

definition offline :: env where
  "offline =
     \<lparr>fetchUrl = (\<lambda>url. None),
      parseNitterRSS = (\<lambda>xml username. []),
      twitterSearch = (\<lambda>username. NoClient),
      fetchRedditData = (\<lambda>username. \<lparr>found = JBool False, comments = []\<rparr>),
      fetchNewsData = (\<lambda>username. \<lparr>found = JBool False, snippets = []\<rparr>),
      fetchGitHubData = (\<lambda>username. \<lparr>found = JBool False, user = None, events = []\<rparr>),
      generateDemoTweets = (\<lambda>username. [\<lparr>text = ''Working on a new project.''\<rparr>])\<rparr>"



definition forum_only :: env where
  "forum_only =
     offline\<lparr>fetchRedditData := (\<lambda>username.
        \<lparr>found = JBool True,
         comments = [\<lparr>text = ''thanks'', comment_score = 2, subreddit = ''aww''\<rparr>]\<rparr>)\<rparr>"

chapter \<open>Properties\<close>

section \<open>Rounding to double\<close>

text \<open>
  The exponent found by \<open>binade\<close> brackets the number, so \<open>fl\<close> rounds to 53 bits: the
  result is within half a unit in the last place, hence within a relative \<open>2^-53\<close>, of
  the exact value, and a number that already has 53 bits is returned unchanged.
\<close>

lemma bitlen_pos: "0 < n \<Longrightarrow> 1 \<le> bitlen n"
  using bitlen_nonneg [of n] bitlen_eq_zero_iff [of n] by linarith

lemma binade_ge1:
  assumes "1 \<le> \<bar>x\<bar>"
  shows "2 powi (binade x) \<le> \<bar>x\<bar>" and "\<bar>x\<bar> < 2 powi (binade x + 1)"
proof -
  let ?n = "\<lfloor>\<bar>x\<bar>\<rfloor>"
  have n: "1 \<le> ?n" using assms by linarith
  then have b: "1 \<le> bitlen ?n" using bitlen_pos [of ?n] by linarith
  have e: "binade x = bitlen ?n - 1" using assms by (simp add: binade_def)
  have bb: "2 ^ nat (bitlen ?n - 1) \<le> ?n" "?n < 2 ^ nat (bitlen ?n)"
    using bitlen_bounds [of ?n] n by auto
  have "(2::rat) powi (binade x) = 2 ^ nat (bitlen ?n - 1)"
    using b by (simp add: e power_int_def)
  also have "\<dots> = of_int (2 ^ nat (bitlen ?n - 1))" by simp
  also have "\<dots> \<le> of_int ?n" using bb(1) by (simp only: of_int_le_iff)
  also have "\<dots> \<le> \<bar>x\<bar>" by simp
  finally show "2 powi (binade x) \<le> \<bar>x\<bar>" .
  have "?n + 1 \<le> 2 ^ nat (bitlen ?n)" using bb(2) by linarith
  then have "(of_int (?n + 1) :: rat) \<le> of_int (2 ^ nat (bitlen ?n))"
    by (simp only: of_int_le_iff)
  moreover have "\<bar>x\<bar> < of_int (?n + 1)" by linarith
  ultimately have "\<bar>x\<bar> < of_int (2 ^ nat (bitlen ?n))" by linarith
  moreover have "(2::rat) powi (binade x + 1) = 2 ^ nat (bitlen ?n)"
    using b by (simp add: e power_int_def)
  ultimately show "\<bar>x\<bar> < 2 powi (binade x + 1)" by simp
qed

lemma binade_lt1:
  assumes "\<bar>x\<bar> < 1" "x \<noteq> 0"
  shows "2 powi (binade x) \<le> \<bar>x\<bar>" and "\<bar>x\<bar> < 2 powi (binade x + 1)"
proof -
  define y where "y = 1 / \<bar>x\<bar>"
  define n where "n = \<lceil>y\<rceil> - 1"
  define hi :: int where "hi = 2 ^ nat (bitlen n)"
  define lo :: int where "lo = 2 ^ nat (bitlen n - 1)"
  have xpos: "0 < \<bar>x\<bar>" using assms by simp
  have y1: "1 < y" using assms xpos by (simp add: y_def field_simps)
  have n: "1 \<le> n" using y1 unfolding n_def by linarith
  then have b: "1 \<le> bitlen n" using bitlen_pos [of n] by linarith
  have e: "binade x = - bitlen n" using assms by (simp add: binade_def n_def y_def)
  have bb: "lo \<le> n" "n < hi"
    using bitlen_bounds [of n] n by (auto simp: lo_def hi_def)
  have ny: "of_int n < y" "y \<le> of_int (n + 1)" unfolding n_def by linarith+
  have "n + 1 \<le> hi" using bb(2) by linarith
  then have "(of_int (n + 1) :: rat) \<le> of_int hi" by (simp only: of_int_le_iff)
  then have up: "y \<le> of_int hi" using ny(2) by linarith
  have "(of_int lo :: rat) \<le> of_int n" using bb(1) by (simp only: of_int_le_iff)
  then have low: "of_int lo < y" using ny(1) by linarith
  have hipos: "(0::rat) < of_int hi" and lopos: "(0::rat) < of_int lo"
    by (simp_all add: hi_def lo_def)
  have p1: "(2::rat) powi (binade x) = 1 / of_int hi"
    using b by (simp add: e power_int_def field_simps hi_def)
  have p2: "(2::rat) powi (binade x + 1) = 1 / of_int lo"
    using b by (simp add: e power_int_def field_simps lo_def)
  have xy: "\<bar>x\<bar> = 1 / y" by (simp add: y_def)
  have ypos: "0 < y" using y1 by linarith
  show "2 powi (binade x) \<le> \<bar>x\<bar>"
    unfolding p1 xy using up hipos ypos by (simp add: frac_le)
  show "\<bar>x\<bar> < 2 powi (binade x + 1)"
    unfolding p2 xy using low lopos ypos by (simp add: frac_less2)
qed

lemma binade_bounds:
  assumes "x \<noteq> 0"
  shows "2 powi (binade x) \<le> \<bar>x\<bar>" and "\<bar>x\<bar> < 2 powi (binade x + 1)"
  using binade_ge1 [of x] binade_lt1 [of x] assms by (cases "1 \<le> \<bar>x\<bar>"; force)+

lemma rhe_err: "\<bar>of_int (round_half_even q) - q\<bar> \<le> 1 / 2"
proof -
  have "of_int \<lfloor>q\<rfloor> \<le> q" "q < of_int \<lfloor>q\<rfloor> + 1" by linarith+
  then show ?thesis
    by (auto simp: round_half_even_def Let_def)
qed

lemma rhe_of_int [simp]: "round_half_even (of_int n) = n"
  by (simp add: round_half_even_def Let_def)

lemma ulp_pos: "0 < ulp x"
  by (simp add: ulp_def power_int_def)

lemma fl_ulp: "x \<noteq> 0 \<Longrightarrow> fl x = of_int (round_half_even (x / ulp x)) * ulp x"
  by (simp add: fl_def ulp_def Let_def)

lemma ulp_binade: "ulp x * 2 ^ 52 = 2 powi (binade x)"
proof -
  have "(2::rat) powi (binade x) = 2 powi ((binade x - 52) + 52)" by simp
  also have "\<dots> = 2 powi (binade x - 52) * 2 powi 52"
    by (rule power_int_add) simp
  finally show ?thesis by (simp add: ulp_def)
qed

lemma ulp_le: "x \<noteq> 0 \<Longrightarrow> ulp x * 2 ^ 52 \<le> \<bar>x\<bar>"
  unfolding ulp_binade by (rule binade_bounds(1))

lemma ulp_gt: "x \<noteq> 0 \<Longrightarrow> \<bar>x\<bar> < ulp x * 2 ^ 53"
proof -
  assume "x \<noteq> 0"
  then have "\<bar>x\<bar> < 2 powi (binade x + 1)" by (rule binade_bounds(2))
  also have "(2::rat) powi (binade x + 1) = 2 powi (binade x) * 2 powi 1"
    by (rule power_int_add) simp
  also have "\<dots> = ulp x * 2 ^ 53" by (simp add: ulp_binade [symmetric])
  finally show ?thesis .
qed

lemma fl_abs_err: "\<bar>fl x - x\<bar> \<le> ulp x / 2"
proof (cases "x = 0")
  case True
  then show ?thesis using ulp_pos [of x] by (simp add: fl_def)
next
  case False
  let ?m = "round_half_even (x / ulp x)"
  have "\<bar>of_int ?m - x / ulp x\<bar> \<le> 1 / 2" by (rule rhe_err)
  then have "\<bar>of_int ?m - x / ulp x\<bar> * ulp x \<le> 1 / 2 * ulp x"
    using ulp_pos [of x] by (simp add: mult_right_mono)
  moreover have "\<bar>of_int ?m - x / ulp x\<bar> * ulp x = \<bar>of_int ?m * ulp x - x\<bar>"
  proof -
    have "\<bar>of_int ?m - x / ulp x\<bar> * ulp x = \<bar>(of_int ?m - x / ulp x) * ulp x\<bar>"
      using ulp_pos [of x] by (simp add: abs_mult)
    also have "(of_int ?m - x / ulp x) * ulp x = of_int ?m * ulp x - x"
      using ulp_pos [of x] by (simp add: field_simps)
    finally show ?thesis .
  qed
  ultimately show ?thesis using False by (simp add: fl_ulp)
qed

lemma fl_rel_err: "\<bar>fl x - x\<bar> \<le> unit_roundoff * \<bar>x\<bar>"
proof (cases "x = 0")
  case True
  then show ?thesis by (simp add: fl_def)
next
  case False
  have "\<bar>fl x - x\<bar> \<le> ulp x / 2" by (rule fl_abs_err)
  also have "ulp x / 2 = (ulp x * 2 ^ 52) / 2 ^ 53" by simp
  also have "\<dots> \<le> \<bar>x\<bar> / 2 ^ 53"
    using ulp_le [OF False] by (simp add: divide_right_mono)
  finally show ?thesis by (simp add: unit_roundoff_def)
qed

lemma fl_bounds:
  assumes "0 \<le> x"
  shows "x * (1 - unit_roundoff) \<le> fl x" and "fl x \<le> x * (1 + unit_roundoff)"
  using fl_rel_err [of x] assms by (simp_all add: algebra_simps abs_le_iff)

lemma fl_nonneg: "0 \<le> x \<Longrightarrow> 0 \<le> fl x"
proof -
  assume x: "0 \<le> x"
  have "0 \<le> x * (1 - unit_roundoff)"
    using x by (simp add: unit_roundoff_def)
  then show ?thesis using fl_bounds(1) [OF x] by linarith
qed

lemma representable_fl: "representable (fl x)"
proof (cases "x = 0")
  case True
  have "(0::rat) = of_int 0 * 2 powi 0 \<and> \<bar>0::int\<bar> \<le> 2 ^ 53" by simp
  then show ?thesis unfolding representable_def using True
    by (metis fl_def)
next
  case False
  let ?m = "round_half_even (x / ulp x)"
  have "\<bar>x / ulp x\<bar> < 2 ^ 53"
    using ulp_gt [OF False] ulp_pos [of x] by (simp add: field_simps abs_mult)
  moreover have "\<bar>of_int ?m - x / ulp x\<bar> \<le> 1 / 2" by (rule rhe_err)
  ultimately have "\<bar>(of_int ?m :: rat)\<bar> < 2 ^ 53 + 1 / 2" by linarith
  then have "(of_int \<bar>?m\<bar> :: rat) < of_int (2 ^ 53 + 1)" by simp
  then have "\<bar>?m\<bar> < 2 ^ 53 + 1" by (simp only: of_int_less_iff)
  then have "\<bar>?m\<bar> \<le> 2 ^ 53" by simp
  moreover have "fl x = of_int ?m * 2 powi (binade x - 52)"
    using fl_ulp [OF False] by (simp only: ulp_def)
  ultimately show ?thesis
    unfolding representable_def by blast
qed


lemma two_powi_pos: "(0::rat) < 2 powi k"
  by (simp add: power_int_def)

lemma two_powi_add: "(2::rat) powi (a + b) = 2 powi a * 2 powi b"
  by (rule power_int_add) simp

lemma representable_integral:
  assumes "representable x" "x \<noteq> 0"
  shows "\<exists>n. x / ulp x = of_int n"
proof -
  obtain m j where x: "x = of_int m * 2 powi j" and m: "\<bar>m\<bar> \<le> 2 ^ 53"
    using assms(1) unfolding representable_def by blast
  define q where "q = binade x - 52"
  have u: "ulp x = 2 powi q" by (simp add: ulp_def q_def)
  show ?thesis
  proof (cases "q \<le> j")
    case True
    have "x / ulp x = x / 2 powi q" by (simp only: u)
    also have "\<dots> = of_int m * (2 powi j / 2 powi q)" by (simp add: x)
    also have "(2::rat) powi j / 2 powi q = 2 powi (j - q)"
      by (rule power_int_diff [symmetric]) simp
    also have "(2::rat) powi (j - q) = 2 ^ nat (j - q)"
      using True by (simp add: power_int_nonneg_exp)
    also have "of_int m * (2::rat) ^ nat (j - q) = of_int (m * 2 ^ nat (j - q))" by simp
    finally show ?thesis by blast
  next
    case False
    have lo: "2 powi (q + 52) \<le> \<bar>x\<bar>"
    proof -
      have "(2::rat) powi (q + 52) = 2 powi (binade x)" by (simp add: q_def)
      then show ?thesis using binade_bounds(1) [OF assms(2)] by simp
    qed
    have ax: "\<bar>x\<bar> = of_int \<bar>m\<bar> * 2 powi j"
      using two_powi_pos [of j] by (simp add: x abs_mult)
    have "(of_int \<bar>m\<bar> :: rat) \<le> of_int (2 ^ 53)"
      using m by (simp only: of_int_le_iff)
    then have "of_int \<bar>m\<bar> * 2 powi j \<le> (of_int (2 ^ 53) :: rat) * 2 powi j"
      using two_powi_pos [of j] by (simp add: mult_right_mono)
    also have "(of_int (2 ^ 53) :: rat) * 2 powi j = 2 powi (j + 53)"
      by (simp add: two_powi_add)
    finally have hi: "\<bar>x\<bar> \<le> 2 powi (j + 53)" by (simp add: ax)
    have "q \<le> j + 1"
    proof (rule ccontr)
      assume "\<not> q \<le> j + 1"
      then have "j + 53 < q + 52" by simp
      then have "(2::rat) powi (j + 53) < 2 powi (q + 52)"
        by (rule power_int_strict_increasing) simp
      then show False using lo hi by linarith
    qed
    then have q: "q = j + 1" using False by simp
    have "\<bar>x\<bar> = 2 powi (j + 53)"
    proof -
      have "q + 52 = j + 53" by (simp add: q)
      then have "(2::rat) powi (q + 52) = 2 powi (j + 53)" by (rule arg_cong)
      then show ?thesis using lo hi by simp
    qed
    then have "of_int \<bar>m\<bar> * 2 powi j = (of_int (2 ^ 53) :: rat) * 2 powi j"
      by (simp add: ax two_powi_add)
    then have "(of_int \<bar>m\<bar> :: rat) = of_int (2 ^ 53)"
      using two_powi_pos [of j] by simp
    then have am: "\<bar>m\<bar> = 2 ^ 53" by (simp only: of_int_eq_iff)
    then have "m = 2 ^ 53 \<or> m = - (2 ^ 53)" by linarith
    then have ev: "m = 2 * (m div 2)" by auto
    have "x / ulp x = x / 2 powi q" by (simp only: u)
    also have "\<dots> = of_int m * 2 powi j / (2 powi j * 2)"
      by (simp add: x q two_powi_add)
    also have "\<dots> = of_int m / 2"
      using two_powi_pos [of j] by simp
    also have "\<dots> = of_int (2 * (m div 2)) / 2" using ev by simp
    also have "\<dots> = of_int (m div 2)" by simp
    finally show ?thesis by blast
  qed
qed

lemma fl_representable:
  assumes "representable x"
  shows "fl x = x"
proof (cases "x = 0")
  case True
  then show ?thesis by (simp add: fl_def)
next
  case False
  obtain n where n: "x / ulp x = of_int n"
    using representable_integral [OF assms False] by blast
  have "fl x = of_int n * ulp x" using False by (simp add: fl_ulp n)
  also have "\<dots> = (x / ulp x) * ulp x" by (simp add: n)
  also have "\<dots> = x" using ulp_pos [of x] by simp
  finally show ?thesis .
qed

lemma fl_idem [simp]: "fl (fl x) = fl x"
  by (rule fl_representable) (rule representable_fl)

lemma fl_zero [simp]: "fl 0 = 0"
  by (simp add: fl_def)

section \<open>The aggregator on an input without results\<close>

lemma agg_step_excluded:
  "\<not> included (snd entry) \<Longrightarrow> agg_step st entry = st"
  by (cases entry)
     (auto simp: agg_step_def included_def split: option.splits)

lemma foldl_agg_step_excluded:
  "list_all (\<lambda>entry. \<not> included (snd entry)) sources \<Longrightarrow>
   foldl agg_step st sources = st"
  by (induction sources arbitrary: st) (simp_all add: agg_step_excluded)

text \<open>
  C5. When every source reports \<^verbatim>\<open>found: false\<close> (as when all four do), the aggregate
  has final score 50, verdict NICE and zero sources found, and no breakdown entry: the
  neutral default, reached without any division.
\<close>

theorem all_not_found_neutral:
  assumes "list_all (\<lambda>entry. \<exists>e. snd entry = Some e \<and> found e = JBool False) sources"
  shows "finalScore (calculateWeightedScore sources) = 50
       \<and> finalVerdict (calculateWeightedScore sources) = NICE
       \<and> sourcesFound (calculateWeightedScore sources) = 0
       \<and> breakdown (calculateWeightedScore sources) = []"
proof -
  have "list_all (\<lambda>entry. \<not> included (snd entry)) sources"
    using assms by (induction sources) (auto simp: included_def)
  then have "foldl agg_step (Numeric 0 0 []) sources = Numeric 0 0 []"
    by (rule foldl_agg_step_excluded)
  then show ?thesis
    by (simp add: calculateWeightedScore_def)
qed

theorem all_not_found_neutral_witness:
  "finalScore (calculateWeightedScore
       [(''twitter'', Some not_found), (''reddit'', Some not_found),
        (''news'', Some not_found), (''github'', Some not_found)]) = 50
   \<and> finalVerdict (calculateWeightedScore
       [(''twitter'', Some not_found), (''reddit'', Some not_found),
        (''news'', Some not_found), (''github'', Some not_found)]) = NICE
   \<and> sourcesFound (calculateWeightedScore
       [(''twitter'', Some not_found), (''reddit'', Some not_found),
        (''news'', Some not_found), (''github'', Some not_found)]) = 0"
  using all_not_found_neutral
    [of "[(''twitter'', Some not_found), (''reddit'', Some not_found),
          (''news'', Some not_found), (''github'', Some not_found)]"]
  by (simp add: not_found_def)

section \<open>Rounding error of the aggregator\<close>

text \<open>
  The table holds three weights of \<open>fl (3/10)\<close> and one of \<open>fl (1/10)\<close>; an object has at
  most four keys with a weight, so at most four products and eight additions are rounded
  before the division. For scores between 0 and 100 the computed quotient is therefore
  within \<open>10^-12\<close> of the exact weighted mean.
\<close>

lemma w30_pos: "0 < fl (30 / 100)"
proof -
  have "(30 / 100) * (1 - unit_roundoff) \<le> fl (30 / 100)"
    by (rule fl_bounds(1)) simp
  moreover have "(0::rat) < (30 / 100) * (1 - unit_roundoff)"
    by (simp add: unit_roundoff_def)
  ultimately show ?thesis by linarith
qed

lemma w10_pos: "0 < fl (10 / 100)"
proof -
  have "(10 / 100) * (1 - unit_roundoff) \<le> fl (10 / 100)"
    by (rule fl_bounds(1)) simp
  moreover have "(0::rat) < (10 / 100) * (1 - unit_roundoff)"
    by (simp add: unit_roundoff_def)
  ultimately show ?thesis by linarith
qed

lemma weight_of_cases:
  "weight_of k =
     (if k = ''twitter'' \<or> k = ''reddit'' \<or> k = ''news'' then fl (30 / 100)
      else if k = ''github'' then fl (10 / 100) else 0)"
  using w30_pos w10_pos by (simp add: weight_of_def SCORE_WEIGHTS_def)

lemma weight_of_nonneg: "0 \<le> weight_of k"
  using w30_pos w10_pos by (simp add: weight_of_cases)

lemma weight_of_fixed: "fl (weight_of k) = weight_of k"
  by (simp add: weight_of_cases)

lemma weight_of_nonzero:
  "weight_of k \<noteq> 0 \<longleftrightarrow> k \<in> {''twitter'', ''reddit'', ''news'', ''github''}"
  using w30_pos w10_pos by (auto simp: weight_of_cases)

lemma weight_lookup_cases:
  "weight_lookup k = (if k \<in> set OBJECT_PROTOTYPE_NAMES then None else Some (weight_of k))"
  by (simp add: weight_lookup_def get_property_def weight_of_def SCORE_WEIGHTS_def
      OBJECT_PROTOTYPE_NAMES_def)

lemma agg_step_included:
  "found e \<noteq> JBool False \<Longrightarrow> score e = Some s \<Longrightarrow> k \<notin> set OBJECT_PROTOTYPE_NAMES \<Longrightarrow>
   agg_step (Numeric tw ws bd) (k, Some e)
     = Numeric (fadd tw (weight_of k)) (fadd ws (fmul (of_int s) (weight_of k)))
         (AList.update k \<lparr>weight = Some (js_round (fmul (weight_of k) 100)), data = e\<rparr> bd)"
  by (auto simp: agg_step_def Let_def weight_lookup_cases assign_def OBJECT_PROTOTYPE_NAMES_def)

lemma agg_step_tainted:
  "\<exists>bd'. agg_step (Tainted bd) p = Tainted bd'"
  by (cases p) (auto simp: agg_step_def Let_def split: option.splits)

lemma agg_step_inherited:
  "found e \<noteq> JBool False \<Longrightarrow> score e = Some s \<Longrightarrow> k \<in> set OBJECT_PROTOTYPE_NAMES \<Longrightarrow>
   \<exists>bd'. agg_step st (k, Some e) = Tainted bd'"
  by (cases st) (simp_all add: agg_step_def Let_def weight_lookup_cases)

lemma agg_tainted_stays:
  "\<exists>bd'. foldl agg_step (Tainted bd) sources = Tainted bd'"
proof (induction sources arbitrary: bd)
  case Nil
  then show ?case by simp
next
  case (Cons p sources)
  obtain b where "agg_step (Tainted bd) p = Tainted b"
    using agg_step_tainted by blast
  then show ?case using Cons.IH [of b] by simp
qed

lemma included_scores_Cons_excluded:
  "\<not> included d \<Longrightarrow> included_scores ((k, d) # sources) = included_scores sources"
  by (auto simp: included_scores_def included_def split: option.splits)

lemma included_scores_Cons_included:
  "found e \<noteq> JBool False \<Longrightarrow> score e = Some s \<Longrightarrow>
   included_scores ((k, Some e) # sources) = (k, s) # included_scores sources"
  by (simp add: included_scores_def)

lemma agg_tainted:
  "\<not> inherited_free (included_scores sources) \<Longrightarrow>
   \<exists>bd'. foldl agg_step st sources = Tainted bd'"
proof (induction sources arbitrary: st)
  case Nil
  then show ?case by (simp add: included_scores_def inherited_free_def)
next
  case (Cons p sources)
  obtain k d where p: "p = (k, d)" by (cases p)
  show ?case
  proof (cases "included d")
    case False
    then have "agg_step st p = st" by (simp add: agg_step_excluded p)
    moreover have "\<not> inherited_free (included_scores sources)"
      using Cons.prems False by (simp add: p included_scores_Cons_excluded)
    ultimately show ?thesis using Cons.IH by simp
  next
    case True
    then obtain e s where e: "d = Some e" "score e = Some s" "found e \<noteq> JBool False"
      by (auto simp: included_def split: option.splits)
    have ps: "included_scores (p # sources) = (k, s) # included_scores sources"
      using e by (simp add: p included_scores_Cons_included)
    show ?thesis
    proof (cases "k \<in> set OBJECT_PROTOTYPE_NAMES")
      case True
      then obtain b where "agg_step st p = Tainted b"
        using agg_step_inherited [OF e(3,2)] e(1) p by blast
      then show ?thesis using agg_tainted_stays [of b sources] by simp
    next
      case False
      then have "\<not> inherited_free (included_scores sources)"
        using Cons.prems by (simp add: ps inherited_free_def)
      then show ?thesis using Cons.IH by simp
    qed
  qed
qed

lemma agg_numeric:
  "inherited_free (included_scores sources) \<Longrightarrow>
   \<exists>bd'. foldl agg_step (Numeric tw ws bd) sources
     = Numeric (fst (foldl num_step (tw, ws) (included_scores sources)))
               (snd (foldl num_step (tw, ws) (included_scores sources))) bd'"
proof (induction sources arbitrary: tw ws bd)
  case Nil
  then show ?case by (simp add: included_scores_def)
next
  case (Cons p sources)
  obtain k d where p: "p = (k, d)" by (cases p)
  show ?case
  proof (cases "included d")
    case False
    then have "agg_step (Numeric tw ws bd) p = Numeric tw ws bd"
      by (simp add: agg_step_excluded p)
    moreover have "included_scores (p # sources) = included_scores sources"
      using False by (simp add: p included_scores_Cons_excluded)
    ultimately show ?thesis using Cons.IH Cons.prems by simp
  next
    case True
    then obtain e s where e: "d = Some e" "score e = Some s" "found e \<noteq> JBool False"
      by (auto simp: included_def split: option.splits)
    have ps: "included_scores (p # sources) = (k, s) # included_scores sources"
      using e by (simp add: p included_scores_Cons_included)
    have k: "k \<notin> set OBJECT_PROTOTYPE_NAMES" and rest: "inherited_free (included_scores sources)"
      using Cons.prems by (simp_all add: ps inherited_free_def)
    obtain a b where ab: "num_step (tw, ws) (k, s) = (a, b)"
      by (cases "num_step (tw, ws) (k, s)")
    obtain bd' where "agg_step (Numeric tw ws bd) p = Numeric a b bd'"
      using agg_step_included [OF e(3,2) k] e(1) ab by (simp add: p num_step_def)
    then show ?thesis using Cons.IH [OF rest, of a b bd'] by (simp add: ps ab)
  qed
qed

lemma unit_roundoff_range: "0 < unit_roundoff" "unit_roundoff < 1"
  by (simp_all add: unit_roundoff_def)

lemma alg_hi:
  fixes u :: rat
  assumes "0 \<le> X" "0 \<le> T" "1 \<le> A" "0 \<le> u"
  shows "(X * A + T * (1 + u)) * (1 + u) \<le> (X + T) * (A * (1 + u) * (1 + u))"
proof -
  have "0 \<le> X * A * (1 + u) * u" using assms by simp
  moreover have "0 \<le> T * (A - 1) * ((1 + u) * (1 + u))" using assms by simp
  ultimately show ?thesis by (simp add: algebra_simps)
qed

lemma alg_lo:
  fixes u :: rat
  assumes "0 \<le> X" "0 \<le> T" "0 \<le> B" "B \<le> 1" "0 \<le> u" "u \<le> 1"
  shows "(X + T) * (B * (1 - u) * (1 - u)) \<le> (X * B + T * (1 - u)) * (1 - u)"
proof -
  have "0 \<le> X * B * (1 - u) * u" using assms by simp
  moreover have "0 \<le> T * (1 - B) * ((1 - u) * (1 - u))" using assms by simp
  ultimately show ?thesis by (simp add: algebra_simps)
qed

lemma step_hi:
  assumes "0 \<le> acc" "0 \<le> t" "0 \<le> X" "0 \<le> T" "1 \<le> A"
    and "acc \<le> X * A" "t \<le> T * (1 + unit_roundoff)"
  shows "fl (acc + t) \<le> (X + T) * (A * (1 + unit_roundoff) * (1 + unit_roundoff))"
proof -
  have "fl (acc + t) \<le> (acc + t) * (1 + unit_roundoff)"
    by (rule fl_bounds(2)) (use assms in simp)
  also have "\<dots> \<le> (X * A + T * (1 + unit_roundoff)) * (1 + unit_roundoff)"
    using assms unit_roundoff_range by (intro mult_right_mono) simp_all
  also have "\<dots> \<le> (X + T) * (A * (1 + unit_roundoff) * (1 + unit_roundoff))"
    using assms unit_roundoff_range by (intro alg_hi) simp_all
  finally show ?thesis .
qed

lemma step_lo:
  assumes "0 \<le> X" "0 \<le> T" "0 \<le> B" "B \<le> 1"
    and "X * B \<le> acc" "T * (1 - unit_roundoff) \<le> t"
  shows "(X + T) * (B * (1 - unit_roundoff) * (1 - unit_roundoff)) \<le> fl (acc + t)"
proof -
  have a: "0 \<le> acc" using assms(1,3,5) by (meson mult_nonneg_nonneg order_trans)
  have "0 \<le> T * (1 - unit_roundoff)" using assms(2) unit_roundoff_range by simp
  then have t: "0 \<le> t" using assms(6) by linarith
  have "(X + T) * (B * (1 - unit_roundoff) * (1 - unit_roundoff))
      \<le> (X * B + T * (1 - unit_roundoff)) * (1 - unit_roundoff)"
    using assms unit_roundoff_range by (intro alg_lo) simp_all
  also have "\<dots> \<le> (acc + t) * (1 - unit_roundoff)"
    using assms unit_roundoff_range by (intro mult_right_mono) simp_all
  also have "\<dots> \<le> fl (acc + t)"
    by (rule fl_bounds(1)) (use a t in simp)
  finally show ?thesis .
qed

lemma hi_pow_ge1: "1 \<le> (1 + unit_roundoff) ^ n"
  using unit_roundoff_range by (simp add: one_le_power)

lemma lo_pow_range: "0 \<le> (1 - unit_roundoff) ^ n" "(1 - unit_roundoff) ^ n \<le> 1"
  using unit_roundoff_range by (simp_all add: power_le_one)

lemma approx_step:
  assumes ap: "approx k W S st" and W: "0 \<le> W" and S: "0 \<le> S" and s: "0 \<le> s"
  shows "approx (if weight_of src = 0 then k else Suc k)
           (W + weight_of src) (S + of_int s * weight_of src) (num_step st (src, s))"
proof -
  obtain tw ws where st: "st = (tw, ws)" by (cases st)
  have inv: "fl tw = tw" "fl ws = ws"
    "W * (1 - unit_roundoff) ^ (2 * k) \<le> tw" "tw \<le> W * (1 + unit_roundoff) ^ (2 * k)"
    "S * (1 - unit_roundoff) ^ (2 * k) \<le> ws" "ws \<le> S * (1 + unit_roundoff) ^ (2 * k)"
    using ap by (simp_all add: approx_def st)
  show ?thesis
  proof (cases "weight_of src = 0")
    case True
    then have "num_step st (src, s) = st"
      by (simp add: num_step_def st fadd_def fmul_def inv)
    then show ?thesis using True ap by simp
  next
    case False
    define w where "w = weight_of src"
    have w: "0 \<le> w" by (simp add: w_def weight_of_nonneg)
    define p where "p = fl (of_int s * w)"
    have sw: "0 \<le> of_int s * w" using s w by simp
    have p: "(of_int s * w) * (1 - unit_roundoff) \<le> p" "p \<le> (of_int s * w) * (1 + unit_roundoff)"
      unfolding p_def using fl_bounds [OF sw] by simp_all
    have p0: "0 \<le> p" unfolding p_def by (rule fl_nonneg) (rule sw)
    have tw0: "0 \<le> tw" using inv(3) W lo_pow_range(1) [of "2 * k"]
      by (meson mult_nonneg_nonneg order_trans)
    have ws0: "0 \<le> ws" using inv(5) S lo_pow_range(1) [of "2 * k"]
      by (meson mult_nonneg_nonneg order_trans)
    have wlo: "w * (1 - unit_roundoff) \<le> w" and whi: "w \<le> w * (1 + unit_roundoff)"
      using w unit_roundoff_range by (simp_all add: algebra_simps)
    have e: "2 * Suc k = Suc (Suc (2 * k))" by simp
    have 1: "fl (tw + w) \<le> (W + w) * (1 + unit_roundoff) ^ (2 * Suc k)"
      using step_hi [OF tw0 w W w hi_pow_ge1 inv(4) whi]
      by (simp only: e power_Suc2 mult.assoc)
    have 2: "(W + w) * (1 - unit_roundoff) ^ (2 * Suc k) \<le> fl (tw + w)"
      using step_lo [OF W w lo_pow_range inv(3) wlo]
      by (simp only: e power_Suc2 mult.assoc)
    have 3: "fl (ws + p) \<le> (S + of_int s * w) * (1 + unit_roundoff) ^ (2 * Suc k)"
      using step_hi [OF ws0 p0 S sw hi_pow_ge1 inv(6) p(2)]
      by (simp only: e power_Suc2 mult.assoc)
    have 4: "(S + of_int s * w) * (1 - unit_roundoff) ^ (2 * Suc k) \<le> fl (ws + p)"
      using step_lo [OF S sw lo_pow_range inv(5) p(1)]
      by (simp only: e power_Suc2 mult.assoc)
    have "num_step st (src, s) = (fl (tw + w), fl (ws + p))"
      by (simp add: num_step_def st fadd_def fmul_def w_def p_def)
    then show ?thesis
      using False 1 2 3 4 by (simp add: approx_def w_def)
  qed
qed


lemma approx_fold:
  assumes "approx k W S st" "0 \<le> W" "0 \<le> S" "\<forall>p \<in> set ps. 0 \<le> snd p"
  shows "approx (k + nonzero_count ps) (W + exact_weight ps) (S + exact_sum ps)
           (foldl num_step st ps)"
  using assms
proof (induction ps arbitrary: k W S st)
  case Nil
  then show ?case by (simp add: nonzero_count_def exact_weight_def exact_sum_def)
next
  case (Cons p ps)
  obtain src s where p: "p = (src, s)" by (cases p)
  have s: "0 \<le> s" using Cons.prems(4) by (simp add: p)
  let ?k = "if weight_of src = 0 then k else Suc k"
  have step: "approx ?k (W + weight_of src) (S + of_int s * weight_of src)
                (num_step st (src, s))"
    by (rule approx_step [OF Cons.prems(1) Cons.prems(2) Cons.prems(3) s])
  have W': "0 \<le> W + weight_of src" using Cons.prems(2) weight_of_nonneg [of src] by simp
  have S': "0 \<le> S + of_int s * weight_of src"
    using Cons.prems(3) s weight_of_nonneg [of src] by simp
  have rest: "\<forall>p \<in> set ps. 0 \<le> snd p" using Cons.prems(4) by simp
  have "approx (?k + nonzero_count ps) (W + weight_of src + exact_weight ps)
          (S + of_int s * weight_of src + exact_sum ps)
          (foldl num_step (num_step st (src, s)) ps)"
    by (rule Cons.IH [OF step W' S' rest])
  moreover have "?k + nonzero_count ps = k + nonzero_count (p # ps)"
    by (simp add: nonzero_count_def p)
  moreover have "W + weight_of src + exact_weight ps = W + exact_weight (p # ps)"
    by (simp add: exact_weight_def p)
  moreover have "S + of_int s * weight_of src + exact_sum ps = S + exact_sum (p # ps)"
    by (simp add: exact_sum_def p)
  ultimately show ?case by (simp add: p)
qed

lemma approx_init: "approx 0 0 0 (0, 0)"
  by (simp add: approx_def)

lemma approx_mono:
  assumes "approx k W S st" "k \<le> n" "0 \<le> W" "0 \<le> S"
  shows "approx n W S st"
proof -
  obtain tw ws where st: "st = (tw, ws)" by (cases st)
  have le: "2 * k \<le> 2 * n" using assms(2) by simp
  have hi: "(1 + unit_roundoff) ^ (2 * k) \<le> (1 + unit_roundoff) ^ (2 * n)"
    using unit_roundoff_range le by (intro power_increasing) simp_all
  have lo: "(1 - unit_roundoff) ^ (2 * n) \<le> (1 - unit_roundoff) ^ (2 * k)"
    using unit_roundoff_range le by (intro power_decreasing) simp_all
  have "W * (1 + unit_roundoff) ^ (2 * k) \<le> W * (1 + unit_roundoff) ^ (2 * n)"
       "S * (1 + unit_roundoff) ^ (2 * k) \<le> S * (1 + unit_roundoff) ^ (2 * n)"
       "W * (1 - unit_roundoff) ^ (2 * n) \<le> W * (1 - unit_roundoff) ^ (2 * k)"
       "S * (1 - unit_roundoff) ^ (2 * n) \<le> S * (1 - unit_roundoff) ^ (2 * k)"
    using hi lo assms(3,4) by (simp_all add: mult_left_mono)
  then show ?thesis using assms(1) by (auto simp: approx_def st)
qed

lemma included_scores_keys:
  "map fst (included_scores sources) = map fst (filter (\<lambda>p. included (snd p)) sources)"
  by (induction sources)
     (auto simp: included_scores_def included_def split: option.splits)

lemma included_scores_distinct:
  "distinct (map fst sources) \<Longrightarrow> distinct (map fst (included_scores sources))"
  by (simp add: included_scores_keys distinct_map_filter)

lemma nonzero_count_le:
  assumes "distinct (map fst ps)"
  shows "nonzero_count ps \<le> 4"
proof -
  let ?ks = "map fst (filter (\<lambda>p. weight_of (fst p) \<noteq> 0) ps)"
  have d: "distinct ?ks" using assms by (rule distinct_map_filter)
  have "set ?ks \<subseteq> {''twitter'', ''reddit'', ''news'', ''github''}"
    using weight_of_nonzero by auto
  then have "card (set ?ks) \<le> card {''twitter'', ''reddit'', ''news'', ''github''}"
    by (intro card_mono) simp_all
  also have "\<dots> \<le> 4" by (simp add: card_insert_if)
  finally have "length ?ks \<le> 4" using distinct_card [OF d] by simp
  then show ?thesis by (simp add: nonzero_count_def)
qed

lemma exact_sum_bounds:
  assumes "\<forall>p \<in> set ps. 0 \<le> snd p \<and> snd p \<le> 100"
  shows "0 \<le> exact_sum ps" and "exact_sum ps \<le> 100 * exact_weight ps"
    and "0 \<le> exact_weight ps"
proof -
  have "0 \<le> exact_sum ps \<and> exact_sum ps \<le> 100 * exact_weight ps \<and> 0 \<le> exact_weight ps"
    using assms
  proof (induction ps)
    case Nil
    then show ?case by (simp add: exact_sum_def exact_weight_def)
  next
    case (Cons p ps)
    obtain src s where p: "p = (src, s)" by (cases p)
    have s: "0 \<le> s" "s \<le> 100" using Cons.prems by (simp_all add: p)
    have w: "0 \<le> weight_of src" by (rule weight_of_nonneg)
    have "(of_int s :: rat) \<le> 100" using s(2) by simp
    then have "of_int s * weight_of src \<le> 100 * weight_of src"
      using w by (rule mult_right_mono)
    moreover have "0 \<le> of_int s * weight_of src" using s(1) w by simp
    moreover have "0 \<le> exact_sum ps \<and> exact_sum ps \<le> 100 * exact_weight ps
        \<and> 0 \<le> exact_weight ps"
      using Cons by simp
    ultimately show ?case using w by (simp add: exact_sum_def exact_weight_def p)
  qed
  then show "0 \<le> exact_sum ps" "exact_sum ps \<le> 100 * exact_weight ps"
    "0 \<le> exact_weight ps" by simp_all
qed


lemma roundoff_factors:
  "(1 + unit_roundoff) ^ 8 / (1 - unit_roundoff) ^ 8 * (1 + unit_roundoff) \<le> 1 + 1 / 10 ^ 14"
  "1 - 1 / 10 ^ 14 \<le> (1 - unit_roundoff) ^ 8 / (1 + unit_roundoff) ^ 8 * (1 - unit_roundoff)"
  by (simp_all add: unit_roundoff_def power_divide)

lemma quotient_near_mean:
  assumes ap: "approx 4 W S (tw, ws)" and W: "0 < W" and S: "0 \<le> S" "S \<le> 100 * W"
  shows "0 < tw" and "\<bar>fl (ws / tw) - S / W\<bar> \<le> 1 / 10 ^ 12"
proof -
  define a where "a = (1 + unit_roundoff) ^ 8"
  define b where "b = (1 - unit_roundoff) ^ 8"
  define m where "m = S / W"
  have inv: "W * b \<le> tw" "tw \<le> W * a" "S * b \<le> ws" "ws \<le> S * a"
    using ap by (simp_all add: approx_def a_def b_def)
  have b0: "0 < b" using unit_roundoff_range by (simp add: b_def)
  have a0: "0 < a" using unit_roundoff_range by (simp add: a_def)
  have Wb: "0 < W * b" using W b0 by simp
  show tw: "0 < tw" using Wb inv(1) by linarith
  have Sb: "0 \<le> S * b" using S(1) b0 by simp
  have ws: "0 \<le> ws" using Sb inv(3) by linarith
  have m: "0 \<le> m" "m \<le> 100" using W S by (simp_all add: m_def field_simps)
  have q0: "0 \<le> ws / tw" using ws tw by simp
  have Sa: "0 \<le> S * a" using S(1) a0 by simp
  have "ws / tw \<le> (S * a) / (W * b)"
    using Sa inv(4) Wb inv(1) by (rule frac_le)
  also have "(S * a) / (W * b) = m * (a / b)" by (simp add: m_def)
  finally have up: "ws / tw \<le> m * (a / b)" .
  have "(S * b) / (W * a) \<le> ws / tw"
    using ws inv(3) tw inv(2) by (rule frac_le)
  moreover have "(S * b) / (W * a) = m * (b / a)" by (simp add: m_def)
  ultimately have low: "m * (b / a) \<le> ws / tw" by simp
  have "fl (ws / tw) \<le> (ws / tw) * (1 + unit_roundoff)"
    by (rule fl_bounds(2) [OF q0])
  also have "\<dots> \<le> (m * (a / b)) * (1 + unit_roundoff)"
    using up unit_roundoff_range by (intro mult_right_mono) simp_all
  also have "\<dots> = m * (a / b * (1 + unit_roundoff))" by simp
  also have "\<dots> \<le> m * (1 + 1 / 10 ^ 14)"
    using roundoff_factors(1) m(1) unfolding a_def b_def by (rule mult_left_mono)
  finally have hi: "fl (ws / tw) \<le> m * (1 + 1 / 10 ^ 14)" .
  have "m * (1 - 1 / 10 ^ 14) \<le> m * (b / a * (1 - unit_roundoff))"
    using roundoff_factors(2) m(1) unfolding a_def b_def by (rule mult_left_mono)
  also have "\<dots> = (m * (b / a)) * (1 - unit_roundoff)" by simp
  also have "\<dots> \<le> (ws / tw) * (1 - unit_roundoff)"
    using low unit_roundoff_range by (intro mult_right_mono) simp_all
  also have "\<dots> \<le> fl (ws / tw)"
    by (rule fl_bounds(1) [OF q0])
  finally have lo: "m * (1 - 1 / 10 ^ 14) \<le> fl (ws / tw)" .
  define d where "d = m * (1 / 10 ^ 14)"
  have "d \<le> 100 * (1 / 10 ^ 14)"
    unfolding d_def using m(2) by (intro mult_right_mono) simp_all
  then have d: "d \<le> 1 / 10 ^ 12" by simp
  have hi': "fl (ws / tw) \<le> m + d" using hi by (simp add: d_def algebra_simps)
  have lo': "m - d \<le> fl (ws / tw)" using lo by (simp add: d_def algebra_simps)
  have "\<bar>fl (ws / tw) - m\<bar> \<le> 1 / 10 ^ 12"
    using hi' lo' d by linarith
  then show "\<bar>fl (ws / tw) - S / W\<bar> \<le> 1 / 10 ^ 12"
    by (simp only: m_def)
qed

lemma fold_approx_sources:
  assumes "distinct (map fst sources)"
    and "\<forall>p \<in> set (included_scores sources). 0 \<le> snd p \<and> snd p \<le> 100"
  shows "approx 4 (exact_weight (included_scores sources)) (exact_sum (included_scores sources))
           (foldl num_step (0, 0) (included_scores sources))"
proof -
  let ?ps = "included_scores sources"
  have nn: "\<forall>p \<in> set ?ps. 0 \<le> snd p" using assms(2) by simp
  have "approx (0 + nonzero_count ?ps) (0 + exact_weight ?ps) (0 + exact_sum ?ps)
          (foldl num_step (0, 0) ?ps)"
    by (rule approx_fold [OF approx_init _ _ nn]) simp_all
  moreover have "nonzero_count ?ps \<le> 4"
    by (rule nonzero_count_le) (rule included_scores_distinct [OF assms(1)])
  ultimately show ?thesis
    using approx_mono exact_sum_bounds(1,3) [OF assms(2)] by simp
qed

lemma final_score_cases:
  assumes "inherited_free (included_scores sources)"
    and "foldl num_step (0, 0) (included_scores sources) = (tw, ws)"
  shows "finalScore (calculateWeightedScore sources)
           = (if 0 < tw then js_round (fl (ws / tw)) else 50)"
proof -
  obtain bd where "foldl agg_step (Numeric 0 0 []) sources = Numeric tw ws bd"
    using agg_numeric [OF assms(1), of 0 0 "[]"] assms(2) by auto
  then show ?thesis
    by (simp add: calculateWeightedScore_def Let_def fdiv_def)
qed

lemma final_score_tainted:
  assumes "\<not> inherited_free (included_scores sources)"
  shows "finalScore (calculateWeightedScore sources) = 50"
proof -
  obtain bd where "foldl agg_step (Numeric 0 0 []) sources = Tainted bd"
    using agg_tainted [OF assms] by blast
  then show ?thesis
    by (simp add: calculateWeightedScore_def Let_def)
qed

lemma final_score_near_mean:
  assumes "distinct (map fst sources)"
    and "\<forall>p \<in> set (included_scores sources). 0 \<le> snd p \<and> snd p \<le> 100"
    and "inherited_free (included_scores sources)"
  shows "exact_weight (included_scores sources) = 0
           \<Longrightarrow> finalScore (calculateWeightedScore sources) = 50"
    and "0 < exact_weight (included_scores sources)
           \<Longrightarrow> \<exists>q. \<bar>q - exact_sum (included_scores sources)
                           / exact_weight (included_scores sources)\<bar> \<le> 1 / 10 ^ 12
                   \<and> finalScore (calculateWeightedScore sources) = js_round q"
proof -
  let ?ps = "included_scores sources"
  obtain tw ws where f: "foldl num_step (0, 0) ?ps = (tw, ws)"
    by (cases "foldl num_step (0, 0) ?ps")
  have ap: "approx 4 (exact_weight ?ps) (exact_sum ?ps) (tw, ws)"
    using fold_approx_sources [OF assms(1,2)] by (simp add: f)
  have fs: "finalScore (calculateWeightedScore sources)
           = (if 0 < tw then js_round (fl (ws / tw)) else 50)"
    by (rule final_score_cases [OF assms(3) f])
  {
    assume "exact_weight ?ps = 0"
    then have "tw \<le> 0" using ap by (simp add: approx_def)
    then show "finalScore (calculateWeightedScore sources) = 50" using fs by simp
  }
  {
    assume W: "0 < exact_weight ?ps"
    have S: "0 \<le> exact_sum ?ps" "exact_sum ?ps \<le> 100 * exact_weight ?ps"
      using exact_sum_bounds [OF assms(2)] by simp_all
    have "0 < tw" and "\<bar>fl (ws / tw) - exact_sum ?ps / exact_weight ?ps\<bar> \<le> 1 / 10 ^ 12"
      using quotient_near_mean [OF ap W S] by simp_all
    then show "\<exists>q. \<bar>q - exact_sum ?ps / exact_weight ?ps\<bar> \<le> 1 / 10 ^ 12
                   \<and> finalScore (calculateWeightedScore sources) = js_round q"
      using fs by auto
  }
qed

section \<open>The final score\<close>

lemma foldl_agg_step_filter:
  "foldl agg_step st (filter (\<lambda>p. included (snd p)) sources) = foldl agg_step st sources"
  by (induction sources arbitrary: st) (simp_all add: agg_step_excluded)

lemma calculateWeightedScore_filter:
  "calculateWeightedScore (filter (\<lambda>p. included (snd p)) sources)
     = calculateWeightedScore sources"
  by (simp add: calculateWeightedScore_def foldl_agg_step_filter)

lemma inherited_free_iff:
  "inherited_free ps \<longleftrightarrow> (\<forall>p \<in> set ps. fst p \<notin> set OBJECT_PROTOTYPE_NAMES)"
  by (simp add: inherited_free_def list_all_iff)

lemma js_round_near:
  assumes "\<bar>q - m\<bar> \<le> 1 / 10 ^ 12"
    and "\<forall>n::int. 1 / 10 ^ 12 < \<bar>m - (of_int n + 1 / 2)\<bar>"
  shows "js_round q = js_round m"
proof -
  define N where "N = \<lfloor>m + 1 / 2\<rfloor>"
  have N: "of_int N \<le> m + 1 / 2" "m + 1 / 2 < of_int N + 1"
    unfolding N_def by linarith+
  have "1 / 10 ^ 12 < \<bar>m - (of_int (N - 1) + 1 / 2)\<bar>" using assms(2) by blast
  then have lo: "of_int N + 1 / 10 ^ 12 < m + 1 / 2" using N(1) by simp
  have "1 / 10 ^ 12 < \<bar>m - (of_int N + 1 / 2)\<bar>" using assms(2) by blast
  then have hi: "m + 1 / 2 < of_int N + 1 - 1 / 10 ^ 12" using N(2) by simp
  have "of_int N \<le> q + 1 / 2" "q + 1 / 2 < of_int N + 1"
    using assms(1) lo hi by linarith+
  then have "\<lfloor>q + 1 / 2\<rfloor> = N" by linarith
  then show ?thesis by (simp add: js_round_def N_def)
qed

text \<open>
  C7. For an input object (distinct keys) whose included entries carry scores between 0
  and 100, the final score lies between 0 and 100, although no clamp is applied: the
  rounded quotient of the two accumulators stays within \<open>10^-12\<close> of a weighted mean of
  those scores, and the default is 50.
\<close>

theorem final_score_in_range:
  assumes "distinct (map fst sources)"
    and "\<forall>p \<in> set (included_scores sources). 0 \<le> snd p \<and> snd p \<le> 100"
  shows "0 \<le> finalScore (calculateWeightedScore sources)
       \<and> finalScore (calculateWeightedScore sources) \<le> 100"
proof (cases "inherited_free (included_scores sources)")
  case False
  then have "finalScore (calculateWeightedScore sources) = 50"
    by (rule final_score_tainted)
  then show ?thesis by simp
next
  case free: True
  show ?thesis
  proof (cases "exact_weight (included_scores sources) = 0")
    case True
    then show ?thesis using final_score_near_mean(1) [OF assms free] by simp
  next
    case False
    let ?ps = "included_scores sources"
    have b: "0 \<le> exact_sum ?ps" "exact_sum ?ps \<le> 100 * exact_weight ?ps"
      "0 \<le> exact_weight ?ps"
      using exact_sum_bounds [OF assms(2)] by simp_all
    then have W: "0 < exact_weight ?ps" using False by simp
    define m where "m = exact_sum ?ps / exact_weight ?ps"
    have m: "0 \<le> m" "m \<le> 100" using W b by (simp_all add: m_def field_simps)
    obtain q where q: "\<bar>q - m\<bar> \<le> 1 / 10 ^ 12"
      "finalScore (calculateWeightedScore sources) = js_round q"
      using final_score_near_mean(2) [OF assms free W] unfolding m_def by blast
    have e: "(1::rat) / 10 ^ 12 \<le> 1 / 4" by simp
    have "0 \<le> q + 1 / 2" "q + 1 / 2 < 101" using q(1) m e by linarith+
    then have "0 \<le> \<lfloor>q + 1 / 2\<rfloor>" "\<lfloor>q + 1 / 2\<rfloor> \<le> 100" by linarith+
    then show ?thesis by (simp add: q(2) js_round_def)
  qed
qed

theorem final_score_in_range_witness:
  "distinct (map fst
       [(''twitter'', Some \<lparr>found = JBool True, score = Some 100, verdict = Some NICE\<rparr>),
        (''reddit'', Some not_found),
        (''github'', Some \<lparr>found = JUndefined, score = Some 0, verdict = None\<rparr>)])
 \<and> included_scores
       [(''twitter'', Some \<lparr>found = JBool True, score = Some 100, verdict = Some NICE\<rparr>),
        (''reddit'', Some not_found),
        (''github'', Some \<lparr>found = JUndefined, score = Some 0, verdict = None\<rparr>)]
     = [(''twitter'', 100), (''github'', 0)]
 \<and> 0 \<le> finalScore (calculateWeightedScore
       [(''twitter'', Some \<lparr>found = JBool True, score = Some 100, verdict = Some NICE\<rparr>),
        (''reddit'', Some not_found),
        (''github'', Some \<lparr>found = JUndefined, score = Some 0, verdict = None\<rparr>)])
 \<and> finalScore (calculateWeightedScore
       [(''twitter'', Some \<lparr>found = JBool True, score = Some 100, verdict = Some NICE\<rparr>),
        (''reddit'', Some not_found),
        (''github'', Some \<lparr>found = JUndefined, score = Some 0, verdict = None\<rparr>)]) \<le> 100"
proof -
  let ?ex = "[(''twitter'', Some \<lparr>found = JBool True, score = Some 100, verdict = Some NICE\<rparr>),
        (''reddit'', Some not_found),
        (''github'', Some \<lparr>found = JUndefined, score = Some 0, verdict = None\<rparr>)]"
  have d: "distinct (map fst ?ex)" by simp
  have ps: "included_scores ?ex = [(''twitter'', 100), (''github'', 0)]"
    by (simp add: included_scores_def not_found_def)
  have r: "\<forall>p \<in> set (included_scores ?ex). 0 \<le> snd p \<and> snd p \<le> 100"
    by (simp add: ps)
  show ?thesis using final_score_in_range [OF d r] d ps by blast
qed

text \<open>
  C1, as stated, fails: with only the forum at 53 and the news at 46 found, the exact
  weighted mean is \<open>49.5\<close> and rounds to 50, but the doubles give
  \<open>fl (53 \<sqdot> 0.3) + fl (46 \<sqdot> 0.3) = 29.699999999999996\<close>, the quotient by \<open>0.6\<close> is
  \<open>49.49999999999999\<close>, and the final score is 49 (verdict NAUGHTY instead of NICE).
\<close>

theorem final_score_tie_counterexample:
  "finalScore (calculateWeightedScore
       [(''twitter'', Some not_found),
        (''reddit'', Some \<lparr>found = JBool True, score = Some 53, verdict = Some NICE\<rparr>),
        (''news'', Some \<lparr>found = JBool True, score = Some 46, verdict = Some NAUGHTY\<rparr>),
        (''github'', Some not_found)]) = 49
 \<and> spec_finalScore
       [(''twitter'', Some not_found),
        (''reddit'', Some \<lparr>found = JBool True, score = Some 53, verdict = Some NICE\<rparr>),
        (''news'', Some \<lparr>found = JBool True, score = Some 46, verdict = Some NAUGHTY\<rparr>),
        (''github'', Some not_found)] = 50"
  by code_simp

text \<open>
  C1, amended. For an input object whose included entries carry scores between 0 and
  100: the aggregate is the one computed from the included entries alone (an entry that
  is not found, or has no score, contributes to neither sum). Where an included entry is
  stored under the name of a member inherited from \<^verbatim>\<open>Object.prototype\<close>, such as
  \<^verbatim>\<open>constructor\<close>, the final score is 50. Otherwise the final score is 50 when the
  included weights sum to zero, and else it is \<^verbatim>\<open>Math.round\<close> of a quotient that lies
  within \<open>10^-12\<close> of the exact weighted mean \<open>\<Sum> score\<^sub>i \<sqdot> weight\<^sub>i / \<Sum> weight\<^sub>i\<close> over
  the included entries; hence it equals the rounded exact mean whenever that mean is
  farther than \<open>10^-12\<close> from every half-integer, and may be the neighbouring integer
  at a tie.
\<close>

theorem final_score_is_rounded_mean:
  assumes "distinct (map fst sources)"
    and "\<forall>p \<in> set (included_scores sources). 0 \<le> snd p \<and> snd p \<le> 100"
  shows "calculateWeightedScore sources
           = calculateWeightedScore (filter (\<lambda>p. included (snd p)) sources)
       \<and> ((\<exists>p \<in> set (included_scores sources). fst p \<in> set OBJECT_PROTOTYPE_NAMES)
            \<longrightarrow> finalScore (calculateWeightedScore sources) = 50)
       \<and> ((\<forall>p \<in> set (included_scores sources). fst p \<notin> set OBJECT_PROTOTYPE_NAMES)
            \<longrightarrow>
             (exact_weight (included_scores sources) = 0
                \<longrightarrow> finalScore (calculateWeightedScore sources) = 50)
           \<and> (0 < exact_weight (included_scores sources)
                \<longrightarrow> (\<exists>q. \<bar>q - exact_sum (included_scores sources)
                                 / exact_weight (included_scores sources)\<bar> \<le> 1 / 10 ^ 12
                         \<and> finalScore (calculateWeightedScore sources) = js_round q))
           \<and> ((\<forall>n::int. 1 / 10 ^ 12 < \<bar>exact_sum (included_scores sources)
                                 / exact_weight (included_scores sources)
                                 - (of_int n + 1 / 2)\<bar>)
                \<longrightarrow> finalScore (calculateWeightedScore sources) = spec_finalScore sources))"
proof (intro conjI impI)
  let ?ps = "included_scores sources"
  show "calculateWeightedScore sources
           = calculateWeightedScore (filter (\<lambda>p. included (snd p)) sources)"
    by (simp add: calculateWeightedScore_filter)
  show "finalScore (calculateWeightedScore sources) = 50"
    if "\<exists>p \<in> set ?ps. fst p \<in> set OBJECT_PROTOTYPE_NAMES"
    using that by (intro final_score_tainted) (simp add: inherited_free_iff)
  assume "\<forall>p \<in> set ?ps. fst p \<notin> set OBJECT_PROTOTYPE_NAMES"
  then have free: "inherited_free ?ps" by (simp add: inherited_free_iff)
  show "finalScore (calculateWeightedScore sources) = 50" if "exact_weight ?ps = 0"
    using final_score_near_mean(1) [OF assms free that] .
  show "\<exists>q. \<bar>q - exact_sum ?ps / exact_weight ?ps\<bar> \<le> 1 / 10 ^ 12
           \<and> finalScore (calculateWeightedScore sources) = js_round q"
    if "0 < exact_weight ?ps"
    using final_score_near_mean(2) [OF assms free that] .
  show "finalScore (calculateWeightedScore sources) = spec_finalScore sources"
    if far: "\<forall>n::int. 1 / 10 ^ 12 < \<bar>exact_sum ?ps / exact_weight ?ps - (of_int n + 1 / 2)\<bar>"
  proof (cases "exact_weight ?ps = 0")
    case True
    then show ?thesis
      using final_score_near_mean(1) [OF assms free True]
      by (simp add: spec_finalScore_def Let_def)
  next
    case False
    then have W: "0 < exact_weight ?ps" using exact_sum_bounds(3) [OF assms(2)] by simp
    obtain q where q: "\<bar>q - exact_sum ?ps / exact_weight ?ps\<bar> \<le> 1 / 10 ^ 12"
      "finalScore (calculateWeightedScore sources) = js_round q"
      using final_score_near_mean(2) [OF assms free W] by blast
    have "js_round q = js_round (exact_sum ?ps / exact_weight ?ps)"
      by (rule js_round_near [OF q(1) far])
    then show ?thesis using W by (simp add: q(2) spec_finalScore_def Let_def)
  qed
qed

theorem final_score_is_rounded_mean_witness:
  "finalScore (calculateWeightedScore
       [(''reddit'', Some \<lparr>found = JBool True, score = Some 80, verdict = Some NICE\<rparr>),
        (''news'', Some not_found)]) = 80
 \<and> calculateWeightedScore
       [(''reddit'', Some \<lparr>found = JBool True, score = Some 80, verdict = Some NICE\<rparr>),
        (''news'', Some not_found)]
   = calculateWeightedScore
       [(''reddit'', Some \<lparr>found = JBool True, score = Some 80, verdict = Some NICE\<rparr>)]
 \<and> finalScore (calculateWeightedScore
       [(''twitter'', Some \<lparr>found = JBool True, score = Some 80, verdict = Some NICE\<rparr>),
        (''constructor'', Some \<lparr>found = JBool True, score = Some 10, verdict = Some NAUGHTY\<rparr>)])
     = 50"
proof -
  let ?ex = "[(''reddit'', Some \<lparr>found = JBool True, score = Some 80, verdict = Some NICE\<rparr>),
        (''news'', Some not_found)]"
  let ?in = "[(''twitter'', Some \<lparr>found = JBool True, score = Some 80, verdict = Some NICE\<rparr>),
        (''constructor'', Some \<lparr>found = JBool True, score = Some 10, verdict = Some NAUGHTY\<rparr>)]"
  have d: "distinct (map fst ?ex)" by simp
  have ps: "included_scores ?ex = [(''reddit'', 80)]"
    by (simp add: included_scores_def not_found_def)
  have r: "\<forall>p \<in> set (included_scores ?ex). 0 \<le> snd p \<and> snd p \<le> 100"
    by (simp add: ps)
  have own: "\<forall>p \<in> set (included_scores ?ex). fst p \<notin> set OBJECT_PROTOTYPE_NAMES"
    by (simp add: ps OBJECT_PROTOTYPE_NAMES_def)
  have w: "0 < weight_of ''reddit''" using w30_pos by (simp add: weight_of_cases)
  have W: "0 < exact_weight (included_scores ?ex)"
    using w by (simp add: ps exact_weight_def)
  have m: "exact_sum (included_scores ?ex) / exact_weight (included_scores ?ex) = 80"
    using w by (simp add: ps exact_weight_def exact_sum_def)
  have far: "\<forall>n::int. 1 / 10 ^ 12
      < \<bar>exact_sum (included_scores ?ex) / exact_weight (included_scores ?ex)
           - (of_int n + 1 / 2)\<bar>"
  proof
    fix n :: int
    have "n \<le> 79 \<or> 80 \<le> n" by linarith
    then have "(of_int n :: rat) \<le> 79 \<or> (80 :: rat) \<le> of_int n"
      by (metis of_int_le_iff of_int_numeral)
    then show "1 / 10 ^ 12
      < \<bar>exact_sum (included_scores ?ex) / exact_weight (included_scores ?ex)
           - (of_int n + 1 / 2)\<bar>"
      unfolding m by auto
  qed
  have "\<lfloor>(80::rat) + 1 / 2\<rfloor> = 80" by (rule floor_unique) simp_all
  then have "js_round 80 = 80" by (simp only: js_round_def)
  then have sp: "spec_finalScore ?ex = 80"
    using W by (simp add: spec_finalScore_def Let_def m)
  have inc: "filter (\<lambda>p. included (snd p)) ?ex
      = [(''reddit'', Some \<lparr>found = JBool True, score = Some 80, verdict = Some NICE\<rparr>)]"
    by (simp add: included_def not_found_def)
  note t = final_score_is_rounded_mean [OF d r]
  have "finalScore (calculateWeightedScore ?ex) = spec_finalScore ?ex"
    using t own far by blast
  then have 1: "finalScore (calculateWeightedScore ?ex) = 80" by (simp only: sp)
  have "calculateWeightedScore ?ex
      = calculateWeightedScore (filter (\<lambda>p. included (snd p)) ?ex)"
    using t by blast
  then have 2: "calculateWeightedScore ?ex = calculateWeightedScore
       [(''reddit'', Some \<lparr>found = JBool True, score = Some 80, verdict = Some NICE\<rparr>)]"
    by (simp only: inc)
  have d': "distinct (map fst ?in)" by simp
  have ps': "included_scores ?in = [(''twitter'', 80), (''constructor'', 10)]"
    by (simp add: included_scores_def)
  have r': "\<forall>p \<in> set (included_scores ?in). 0 \<le> snd p \<and> snd p \<le> 100"
    by (simp add: ps')
  have inh: "\<exists>p \<in> set (included_scores ?in). fst p \<in> set OBJECT_PROTOTYPE_NAMES"
    by (simp add: ps' OBJECT_PROTOTYPE_NAMES_def)
  have 3: "finalScore (calculateWeightedScore ?in) = 50"
    using final_score_is_rounded_mean [OF d' r'] inh by blast
  show ?thesis using 1 2 3 by blast
qed

section \<open>The inclusion test of the aggregator\<close>

lemma update_fresh:
  "k \<notin> fst ` set al \<Longrightarrow> AList.update k v al = al @ [(k, v)]"
  by (induction al) auto

lemma breakdown_of_Cons_skip:
  "\<not> recorded (k, d) \<Longrightarrow> breakdown_of ((k, d) # sources) = breakdown_of sources"
  by (auto simp: breakdown_of_def split: option.splits)

lemma breakdown_of_Cons_recorded:
  "recorded (k, Some e) \<Longrightarrow>
   breakdown_of ((k, Some e) # sources)
     = (k, \<lparr>weight = map_option (\<lambda>w. js_round (fmul w 100)) (weight_lookup k), data = e\<rparr>)
       # breakdown_of sources"
  by (simp add: breakdown_of_def)

lemma recorded_Some: "recorded (k, d) \<Longrightarrow> \<exists>e. d = Some e"
  by (cases d) (simp_all add: recorded_def included_def)

lemma breakdown_of_keys:
  "map fst (breakdown_of sources) = map fst (filter recorded sources)"
proof (induction sources)
  case Nil
  then show ?case by (simp add: breakdown_of_def)
next
  case (Cons p sources)
  obtain k d where p: "p = (k, d)" by (cases p)
  show ?case
  proof (cases "recorded (k, d)")
    case False
    then show ?thesis using Cons.IH by (simp add: p breakdown_of_Cons_skip)
  next
    case True
    then obtain e where "d = Some e" using recorded_Some by blast
    then show ?thesis using Cons.IH True by (simp add: p breakdown_of_Cons_recorded)
  qed
qed

lemma state_breakdown_skip:
  "\<not> recorded p \<Longrightarrow> state_breakdown (agg_step st p) = state_breakdown st"
  by (cases p; cases st)
     (auto simp: agg_step_def recorded_def included_def assign_def Let_def
           split: option.splits)

lemma state_breakdown_recorded:
  "recorded (k, Some e) \<Longrightarrow>
   state_breakdown (agg_step st (k, Some e))
     = AList.update k
         \<lparr>weight = map_option (\<lambda>w. js_round (fmul w 100)) (weight_lookup k), data = e\<rparr>
         (state_breakdown st)"
  by (cases st)
     (auto simp: agg_step_def recorded_def included_def assign_def Let_def
           split: option.splits)

lemma agg_breakdown:
  assumes "distinct (map fst sources)" "fst ` set (state_breakdown st) \<inter> fst ` set sources = {}"
  shows "state_breakdown (foldl agg_step st sources) = state_breakdown st @ breakdown_of sources"
  using assms
proof (induction sources arbitrary: st)
  case Nil
  then show ?case by (simp add: breakdown_of_def)
next
  case (Cons p sources)
  obtain k d where p: "p = (k, d)" by (cases p)
  have dist: "distinct (map fst sources)" and kfresh: "k \<notin> fst ` set sources"
    using Cons.prems(1) by (simp_all add: p)
  show ?case
  proof (cases "recorded (k, d)")
    case False
    have sb: "state_breakdown (agg_step st (k, d)) = state_breakdown st"
      by (rule state_breakdown_skip [OF False])
    have disj: "fst ` set (state_breakdown (agg_step st (k, d))) \<inter> fst ` set sources = {}"
      using Cons.prems(2) by (auto simp: sb)
    show ?thesis
      using Cons.IH [OF dist disj] False by (simp add: p sb breakdown_of_Cons_skip)
  next
    case True
    then obtain e where e: "d = Some e" using recorded_Some by blast
    let ?entry = "\<lparr>weight = map_option (\<lambda>w. js_round (fmul w 100)) (weight_lookup k), data = e\<rparr>"
    have rec: "recorded (k, Some e)" using True by (simp add: e)
    have knew: "k \<notin> fst ` set (state_breakdown st)" using Cons.prems(2) by (auto simp: p)
    have sb: "state_breakdown (agg_step st (k, Some e)) = state_breakdown st @ [(k, ?entry)]"
      using state_breakdown_recorded [OF rec, of st] update_fresh [OF knew]
      by simp
    have disj: "fst ` set (state_breakdown (agg_step st (k, Some e))) \<inter> fst ` set sources = {}"
      using Cons.prems(2) kfresh by (auto simp: sb p)
    show ?thesis
      using Cons.IH [OF dist disj] rec
      by (simp add: p e sb breakdown_of_Cons_recorded)
  qed
qed

lemma breakdown_eq:
  assumes "distinct (map fst sources)"
  shows "breakdown (calculateWeightedScore sources) = breakdown_of sources"
proof -
  have "state_breakdown (foldl agg_step (Numeric 0 0 []) sources)
          = state_breakdown (Numeric 0 0 []) @ breakdown_of sources"
    by (rule agg_breakdown [OF assms]) simp
  then show ?thesis by (simp add: calculateWeightedScore_def Let_def)
qed













section \<open>The developer-activity source without a profile\<close>

lemma build_sources_shape:
  assumes "fst (build_sources e c) = Some sources"
  shows "\<exists>tw rd nw. sources =
     [(''twitter'', Some tw), (''reddit'', Some rd), (''news'', Some nw),
      (''github'', Some (github_source (fetchGitHubData e c)))]"
  using assms
  by (cases "twitter_stage e c")
     (auto simp: build_sources_def split: option.splits)

lemma not_found_excluded: "\<not> included (Some not_found)"
  by (simp add: included_def not_found_def)

lemma forum_only_sources:
  "build_sources forum_only ''bob''
     = (Some [(''twitter'', Some not_found),
              (''reddit'', Some \<lparr>found = JBool True, score = Some 53, verdict = Some NICE\<rparr>),
              (''news'', Some not_found),
              (''github'', Some not_found)],
        map NitterGet NITTER_INSTANCES
        @ [TwitterApi ''bob'', RedditFetch ''bob'', NewsFetch ''bob'', GitHubFetch ''bob''])"
  by code_simp

text \<open>
  C3, as stated, fails. Where the developer-activity fetcher reports
  \<^verbatim>\<open>{user: null, events: [], found: false}\<close> and only the forum has a result (score 53),
  the handler answers with final score 53 and one source found, the forum alone in the
  breakdown. Had the developer-activity source taken part with the neutral 50 and its
  weight of 10%, the formula would give \<open>round(52.25) = 52\<close> and two sources found.
\<close>

theorem github_not_found_counterexample:
  "fetchGitHubData forum_only ''bob'' = \<lparr>found = JBool False, user = None, events = []\<rparr>
 \<and> fst (analyze_all forum_only \<lparr>username = JStr ''bob'', demo = JUndefined\<rparr>)
     = Status200
         \<lparr>finalScore = 53, finalVerdict = NICE,
          breakdown =
            [(''reddit'',
              \<lparr>weight = Some 30,
               data = \<lparr>found = JBool True, score = Some 53, verdict = Some NICE\<rparr>\<rparr>)],
          sourcesFound = 1\<rparr>
 \<and> spec_finalScore
       [(''reddit'', Some \<lparr>found = JBool True, score = Some 53, verdict = Some NICE\<rparr>),
        (''github'', Some \<lparr>found = JBool True, score = Some 50, verdict = Some NICE\<rparr>)]
     = 52"
  by code_simp

text \<open>
  C3, amended. When the developer-activity fetcher returns \<^verbatim>\<open>found: false\<close>, the
  analyzer would return score 50 with verdict NICE on that result (no profile), but the
  orchestrator does not call it: it records \<^verbatim>\<open>{ found: false }\<close> for the source, and
  the aggregator leaves the source out. It is absent from the breakdown, and the
  aggregate is the one of the three other sources alone. (\<open>sources\<close> is the object that
  the handler has built when it reaches the aggregator.)
\<close>

theorem github_not_found_is_excluded:
  assumes "\<not> truthy (found (fetchGitHubData e c))"
    and "fst (build_sources e c) = Some sources"
  shows "github_source (fetchGitHubData e c) = not_found
    \<and> map_of sources ''github'' = Some (Some not_found)
    \<and> ''github'' \<notin> fst ` set (breakdown (calculateWeightedScore sources))
    \<and> calculateWeightedScore sources
        = calculateWeightedScore (filter (\<lambda>p. fst p \<noteq> ''github'') sources)
    \<and> (user (fetchGitHubData e c) = None \<longrightarrow>
          score (analyzeGitHubData (fetchGitHubData e c)) = Some 50
        \<and> verdict (analyzeGitHubData (fetchGitHubData e c)) = Some NICE)"
proof -
  have gh: "github_source (fetchGitHubData e c) = not_found"
    using assms(1) by (simp add: github_source_def)
  obtain tw rd nw where bs: "sources =
     [(''twitter'', Some tw), (''reddit'', Some rd), (''news'', Some nw),
      (''github'', Some not_found)]"
    using build_sources_shape [OF assms(2)] gh by auto
  have d: "distinct (map fst sources)" by (simp add: bs)
  have 2: "map_of sources ''github'' = Some (Some not_found)" by (simp add: bs)
  have "''github'' \<notin> set (map fst (breakdown_of sources))"
    using not_found_excluded by (simp add: breakdown_of_keys bs recorded_def)
  then have 3: "''github'' \<notin> fst ` set (breakdown (calculateWeightedScore sources))"
    by (simp add: breakdown_eq [OF d])
  have "filter (\<lambda>p. included (snd p)) sources
      = filter (\<lambda>p. included (snd p)) (filter (\<lambda>p. fst p \<noteq> ''github'') sources)"
    using not_found_excluded by (simp add: bs)
  then have 4: "calculateWeightedScore sources
        = calculateWeightedScore (filter (\<lambda>p. fst p \<noteq> ''github'') sources)"
    using calculateWeightedScore_filter [of sources]
      calculateWeightedScore_filter [of "filter (\<lambda>p. fst p \<noteq> ''github'') sources"]
    by simp
  have 5: "user (fetchGitHubData e c) = None \<longrightarrow>
          score (analyzeGitHubData (fetchGitHubData e c)) = Some 50
        \<and> verdict (analyzeGitHubData (fetchGitHubData e c)) = Some NICE"
    by (simp add: analyzeGitHubData_def)
  show ?thesis using gh 2 3 4 5 by blast
qed

theorem github_not_found_is_excluded_witness:
  "\<not> truthy (found (fetchGitHubData forum_only ''bob''))
 \<and> fst (build_sources forum_only ''bob'')
     = Some [(''twitter'', Some not_found),
             (''reddit'', Some \<lparr>found = JBool True, score = Some 53, verdict = Some NICE\<rparr>),
             (''news'', Some not_found),
             (''github'', Some not_found)]
 \<and> ''github'' \<notin> fst ` set (breakdown (calculateWeightedScore
       [(''twitter'', Some not_found),
        (''reddit'', Some \<lparr>found = JBool True, score = Some 53, verdict = Some NICE\<rparr>),
        (''news'', Some not_found),
        (''github'', Some not_found)]))
 \<and> score (analyzeGitHubData (fetchGitHubData forum_only ''bob'')) = Some 50
 \<and> verdict (analyzeGitHubData (fetchGitHubData forum_only ''bob'')) = Some NICE"
proof -
  have h: "\<not> truthy (found (fetchGitHubData forum_only ''bob''))"
    by (simp add: forum_only_def offline_def)
  have u: "user (fetchGitHubData forum_only ''bob'') = None"
    by (simp add: forum_only_def offline_def)
  have b: "fst (build_sources forum_only ''bob'')
     = Some [(''twitter'', Some not_found),
             (''reddit'', Some \<lparr>found = JBool True, score = Some 53, verdict = Some NICE\<rparr>),
             (''news'', Some not_found),
             (''github'', Some not_found)]"
    by (simp add: forum_only_sources)
  show ?thesis
    using github_not_found_is_excluded [OF h b] h u b by blast
qed

section \<open>The fallback order of the microblog fetch\<close>


lemma cached_nonempty: "cached_tweets c = Own t \<Longrightarrow> t \<noteq> []"
  by (auto simp: cached_tweets_def get_property_def CACHED_REAL_DATA_def cached_elonmusk_def
      cached_nasa_def cached_billgates_def cached_taylorswift13_def cached_kanyewest_def
      cached_drew_mailen_def split: if_splits)

















section \<open>Requests without an identifier\<close>

text \<open>
  C8. A request whose body has no \<^verbatim>\<open>username\<close> (or any falsy one: \<^verbatim>\<open>null\<close>, the
  empty string, \<^verbatim>\<open>0\<close>, \<^verbatim>\<open>false\<close>) is answered by both handlers with status 400 and
  \<^verbatim>\<open>Username is required\<close>, and no call to any fetcher is made.
\<close>

theorem missing_username_rejected:
  assumes "\<not> truthy (username body)"
  shows "analyze e body = (Status400 ''Username is required'', [])
       \<and> analyze_all e body = (Status400 ''Username is required'', [])"
  using assms by (simp add: analyze_def analyze_all_def)

theorem missing_username_rejected_witness:
  "analyze offline \<lparr>username = JUndefined, demo = JUndefined\<rparr>
     = (Status400 ''Username is required'', [])
 \<and> analyze_all offline \<lparr>username = JUndefined, demo = JUndefined\<rparr>
     = (Status400 ''Username is required'', [])"
  using missing_username_rejected [of "\<lparr>username = JUndefined, demo = JUndefined\<rparr>" offline]
  by simp

section \<open>The analyzers: score range and verdict\<close>

lemma clamp_score_range: "0 \<le> clamp_score x \<and> clamp_score x \<le> 100"
  by (simp add: clamp_score_def)

lemma niceScore_nonneg: "0 \<le> niceScore u es"
  by (simp add: niceScore_def)

lemma analyzeTweets_clamped:
  "\<exists>x. score (analyzeTweets tws) = Some (clamp_score x)
      \<and> verdict (analyzeTweets tws) = Some (verdict_of (clamp_score x))"
  by (cases "foldl tweet_step (0, 0, [], []) tws")
     (simp add: analyzeTweets_def Let_def, blast)

lemma analyzeRedditComments_clamped:
  "\<exists>x. score (analyzeRedditComments cms) = Some (clamp_score x)
      \<and> verdict (analyzeRedditComments cms) = Some (verdict_of (clamp_score x))"
  by (cases "foldl reddit_step (0, 0) cms")
     (simp add: analyzeRedditComments_def Let_def, blast)

lemma analyzeNewsSnippets_clamped:
  "\<exists>x. score (analyzeNewsSnippets sns) = Some (clamp_score x)
      \<and> verdict (analyzeNewsSnippets sns) = Some (verdict_of (clamp_score x))"
  by (cases "foldl news_step (0, 0) sns")
     (simp add: analyzeNewsSnippets_def Let_def, blast)

lemma analyzeGitHubData_score:
  "\<exists>s. score (analyzeGitHubData d) = Some s \<and> 50 \<le> s \<and> s \<le> 100
      \<and> verdict (analyzeGitHubData d) = Some (verdict_of s)"
  using niceScore_nonneg
  by (cases "user d") (simp_all add: analyzeGitHubData_def Let_def verdict_of_def)

text \<open>
  C2. Each of the four analyzers returns a score between 0 and 100, and its verdict is
  NICE exactly when that score is at least 50 and NAUGHTY otherwise. The orchestrator
  adds \<^verbatim>\<open>found: true\<close> to these objects without touching score or verdict.
\<close>

theorem analyzers_verdict_follows_score:
  "(\<exists>s. score (analyzeTweets tws) = Some s \<and> 0 \<le> s \<and> s \<le> 100
        \<and> verdict (analyzeTweets tws) = Some (if 50 \<le> s then NICE else NAUGHTY))
 \<and> (\<exists>s. score (analyzeRedditComments cms) = Some s \<and> 0 \<le> s \<and> s \<le> 100
        \<and> verdict (analyzeRedditComments cms)
            = Some (if 50 \<le> s then NICE else NAUGHTY))
 \<and> (\<exists>s. score (analyzeNewsSnippets sns) = Some s \<and> 0 \<le> s \<and> s \<le> 100
        \<and> verdict (analyzeNewsSnippets sns)
            = Some (if 50 \<le> s then NICE else NAUGHTY))
 \<and> (\<exists>s. score (analyzeGitHubData d) = Some s \<and> 0 \<le> s \<and> s \<le> 100
        \<and> verdict (analyzeGitHubData d) = Some (if 50 \<le> s then NICE else NAUGHTY))"
proof (intro conjI)
  obtain x where "score (analyzeTweets tws) = Some (clamp_score x)"
    "verdict (analyzeTweets tws) = Some (verdict_of (clamp_score x))"
    using analyzeTweets_clamped by blast
  then show "\<exists>s. score (analyzeTweets tws) = Some s \<and> 0 \<le> s \<and> s \<le> 100
        \<and> verdict (analyzeTweets tws) = Some (if 50 \<le> s then NICE else NAUGHTY)"
    using clamp_score_range [of x] by (simp add: verdict_of_def)
next
  obtain x where "score (analyzeRedditComments cms) = Some (clamp_score x)"
    "verdict (analyzeRedditComments cms) = Some (verdict_of (clamp_score x))"
    using analyzeRedditComments_clamped by blast
  then show "\<exists>s. score (analyzeRedditComments cms) = Some s \<and> 0 \<le> s \<and> s \<le> 100
        \<and> verdict (analyzeRedditComments cms)
            = Some (if 50 \<le> s then NICE else NAUGHTY)"
    using clamp_score_range [of x] by (simp add: verdict_of_def)
next
  obtain x where "score (analyzeNewsSnippets sns) = Some (clamp_score x)"
    "verdict (analyzeNewsSnippets sns) = Some (verdict_of (clamp_score x))"
    using analyzeNewsSnippets_clamped by blast
  then show "\<exists>s. score (analyzeNewsSnippets sns) = Some s \<and> 0 \<le> s \<and> s \<le> 100
        \<and> verdict (analyzeNewsSnippets sns)
            = Some (if 50 \<le> s then NICE else NAUGHTY)"
    using clamp_score_range [of x] by (simp add: verdict_of_def)
next
  obtain s where "score (analyzeGitHubData d) = Some s" "50 \<le> s" "s \<le> 100"
    "verdict (analyzeGitHubData d) = Some (verdict_of s)"
    using analyzeGitHubData_score by blast
  then show "\<exists>s. score (analyzeGitHubData d) = Some s \<and> 0 \<le> s \<and> s \<le> 100
        \<and> verdict (analyzeGitHubData d) = Some (if 50 \<le> s then NICE else NAUGHTY)"
    by (simp add: verdict_of_def)
qed

theorem analyzers_verdict_follows_score_witness:
  "(\<exists>s. score (analyzeTweets [\<lparr>text = ''I hate this''\<rparr>]) = Some s \<and> 0 \<le> s \<and> s \<le> 100
        \<and> verdict (analyzeTweets [\<lparr>text = ''I hate this''\<rparr>])
            = Some (if 50 \<le> s then NICE else NAUGHTY))
 \<and> (\<exists>s. score (analyzeRedditComments
                 [\<lparr>text = ''thanks'', comment_score = 2, subreddit = ''aww''\<rparr>]) = Some s
        \<and> 0 \<le> s \<and> s \<le> 100
        \<and> verdict (analyzeRedditComments
                 [\<lparr>text = ''thanks'', comment_score = 2, subreddit = ''aww''\<rparr>])
            = Some (if 50 \<le> s then NICE else NAUGHTY))
 \<and> (\<exists>s. score (analyzeNewsSnippets [\<lparr>text = ''a scandal''\<rparr>]) = Some s
        \<and> 0 \<le> s \<and> s \<le> 100
        \<and> verdict (analyzeNewsSnippets [\<lparr>text = ''a scandal''\<rparr>])
            = Some (if 50 \<le> s then NICE else NAUGHTY))
 \<and> (\<exists>s. score (analyzeGitHubData \<lparr>found = JBool False, user = None, events = []\<rparr>) = Some s
        \<and> 0 \<le> s \<and> s \<le> 100
        \<and> verdict (analyzeGitHubData \<lparr>found = JBool False, user = None, events = []\<rparr>)
            = Some (if 50 \<le> s then NICE else NAUGHTY))"
  by (rule analyzers_verdict_follows_score)

section \<open>The forum analyzer on two comments\<close>

lemma scenario_keyword_counts:
  "count_matches NICE_KEYWORDS (toLowerCase ''I love this'') = 1
 \<and> count_matches NAUGHTY_KEYWORDS (toLowerCase ''I love this'') = 0
 \<and> count_matches NICE_KEYWORDS (toLowerCase ''you are stupid'') = 0
 \<and> count_matches NAUGHTY_KEYWORDS (toLowerCase ''you are stupid'') = 1"
  by code_simp

text \<open>
  C6. On the two comments \<^verbatim>\<open>{text: "I love this", score: 15}\<close> and
  \<^verbatim>\<open>{text: "you are stupid", score: -3}\<close> the forum analyzer counts 2 positive signals
  (the keyword \<^verbatim>\<open>love\<close>, the only keyword of either list in the first text, and the
  bonus for a score above 10) and 3 negative ones (the keyword \<^verbatim>\<open>stupid\<close>, the only
  keyword in the second text, and 2 for the negative score); the score is
  \<open>50 + (2 - 3) * 3 = 47\<close> and the verdict NAUGHTY. The subreddit is not read.
\<close>

theorem reddit_two_comments:
  "analyzeRedditComments
     [\<lparr>text = ''I love this'', comment_score = 15, subreddit = sr1\<rparr>,
      \<lparr>text = ''you are stupid'', comment_score = - 3, subreddit = sr2\<rparr>]
   = \<lparr>found = JUndefined, score = Some 47, verdict = Some NAUGHTY,
      niceCount = 2, naughtyCount = 3, commentsAnalyzed = 2\<rparr>
 \<and> matches NICE_KEYWORDS (toLowerCase ''I love this'') = [''love'']
 \<and> matches NAUGHTY_KEYWORDS (toLowerCase ''I love this'') = []
 \<and> matches NICE_KEYWORDS (toLowerCase ''you are stupid'') = []
 \<and> matches NAUGHTY_KEYWORDS (toLowerCase ''you are stupid'') = [''stupid'']
 \<and> clamp_score (50 + (2 - 3) * 3) = 47"
proof (intro conjI)
  show "analyzeRedditComments
     [\<lparr>text = ''I love this'', comment_score = 15, subreddit = sr1\<rparr>,
      \<lparr>text = ''you are stupid'', comment_score = - 3, subreddit = sr2\<rparr>]
   = \<lparr>found = JUndefined, score = Some 47, verdict = Some NAUGHTY,
      niceCount = 2, naughtyCount = 3, commentsAnalyzed = 2\<rparr>"
    using scenario_keyword_counts
    by (simp add: analyzeRedditComments_def reddit_step_def Let_def clamp_score_def
        verdict_of_def)
  show "matches NICE_KEYWORDS (toLowerCase ''I love this'') = [''love'']"
    by code_simp
  show "matches NAUGHTY_KEYWORDS (toLowerCase ''I love this'') = []"
    by code_simp
  show "matches NICE_KEYWORDS (toLowerCase ''you are stupid'') = []"
    by code_simp
  show "matches NAUGHTY_KEYWORDS (toLowerCase ''you are stupid'') = [''stupid'']"
    by code_simp
  show "clamp_score (50 + (2 - 3) * 3) = 47"
    by (simp add: clamp_score_def)
qed

theorem reddit_two_comments_witness:
  "score (analyzeRedditComments
     [\<lparr>text = ''I love this'', comment_score = 15, subreddit = ''movies''\<rparr>,
      \<lparr>text = ''you are stupid'', comment_score = - 3, subreddit = ''movies''\<rparr>]) = Some 47
 \<and> verdict (analyzeRedditComments
     [\<lparr>text = ''I love this'', comment_score = 15, subreddit = ''movies''\<rparr>,
      \<lparr>text = ''you are stupid'', comment_score = - 3, subreddit = ''movies''\<rparr>])
     = Some NAUGHTY"
  using reddit_two_comments [of "''movies''" "''movies''"] by simp

section \<open>The developer-activity analyzer never says NAUGHTY\<close>

text \<open>
  C10. For every profile and every list of events the developer-activity analyzer returns
  a score of at least 50 (and at most 100) with verdict NICE: the signal added to the
  neutral 50 is a sum of terms that are each zero or positive, also for negative counts
  in the profile, which the guards \<^verbatim>\<open>> 0\<close> leave out.
\<close>

theorem github_never_naughty:
  "\<exists>s. score (analyzeGitHubData d) = Some s \<and> 50 \<le> s \<and> s \<le> 100
       \<and> verdict (analyzeGitHubData d) = Some NICE"
proof -
  obtain s where "score (analyzeGitHubData d) = Some s" "50 \<le> s" "s \<le> 100"
    "verdict (analyzeGitHubData d) = Some (verdict_of s)"
    using analyzeGitHubData_score by blast
  then show ?thesis by (simp add: verdict_of_def)
qed

theorem github_never_naughty_witness:
  "\<exists>s. score (analyzeGitHubData
            \<lparr>found = JBool True,
             user = Some \<lparr>public_repos = - 3, followers = 0, bio = JNull, blog = JStr ''''\<rparr>,
             events = [\<lparr>event_type = ''WatchEvent''\<rparr>]\<rparr>) = Some s
       \<and> 50 \<le> s \<and> s \<le> 100
       \<and> verdict (analyzeGitHubData
            \<lparr>found = JBool True,
             user = Some \<lparr>public_repos = - 3, followers = 0, bio = JNull, blog = JStr ''''\<rparr>,
             events = [\<lparr>event_type = ''WatchEvent''\<rparr>]\<rparr>) = Some NICE"
  by (rule github_never_naughty)

end

